theory Spec2Isabelle
  imports Complex_Main
begin

section \<open>Data model of \<open>devicely/everion.py\<close>\<close>

text \<open>
  The module reads the CSV exports of an Everion wearable into pandas data frames, one per
  stream, and pivots three of them into one wide, time-indexed frame.  The embedding below
  follows the class \<open>EverionReader\<close> method by method.

  Numbers.  The \<open>time\<close> column of a raw frame is a \<open>datetime64[ns]\<close> column: an integer
  number of nanoseconds since the epoch, modelled as \<open>int\<close>.  The \<open>values\<close> and \<open>quality\<close>
  columns are \<open>float64\<close> columns; a cell is modelled as \<open>real option\<close>, where \<open>None\<close> is the
  missing value \<open>NaN\<close>.  The fractional seconds computed during pivoting are \<open>float64\<close>
  values in the source and exact real numbers here: rounding of \<open>float64\<close> arithmetic and the
  nanosecond resolution of \<open>pd.to_datetime\<close> are not modelled.
\<close>

datatype error =
    OSError
  | KeyError_tag int          \<comment> \<open>\<open>_tag_name\<close>: no corresponding tag name\<close>
  | KeyError_signal_tag int   \<comment> \<open>\<open>__init__\<close>: not a valid signal tag\<close>
  | KeyError_feature_tag int  \<comment> \<open>\<open>__init__\<close>: not a valid feature tag\<close>
  | KeyError_sensor_tag int   \<comment> \<open>\<open>__init__\<close>: not a valid sensor tag\<close>
  | KeyError_column string    \<comment> \<open>\<open>sub_df[tag_name]\<close> on a column that \<open>dropna\<close> removed\<close>
  | ValueError_duplicate_keys \<comment> \<open>\<open>set_index(verify_integrity=True)\<close>: index has duplicate keys\<close>
  | ValueError_columns_overlap \<comment> \<open>\<open>DataFrame.join\<close>: columns overlap but no suffix specified\<close>
  | ValueError_shape          \<comment> \<open>\<open>_read_file\<close>: the \<open>values\<close> column cannot be split and parsed\<close>

record raw_row =
  r_time :: int
  r_tag :: int
  r_values :: "real option"
  r_quality :: "real option"
  r_count :: int
  r_streamType :: string

text \<open>
  A raw frame.  \<open>has_quality\<close> says whether the frame has a \<open>quality\<close> column at all
  (\<open>_read_file\<close> creates it only when the \<open>values\<close> column had to be split); without the
  column the field \<open>r_quality\<close> of a row carries no information, and \<open>table_rows\<close> reads the
  rows with that field blanked.
\<close>

record raw_table =
  has_quality :: bool
  rows :: "raw_row list"

definition table_rows :: "raw_table \<Rightarrow> raw_row list" where
  "table_rows T = (if has_quality T then rows T else map (\<lambda>r. r\<lparr>r_quality := None\<rparr>) (rows T))"

subsection \<open>The tag catalogs\<close>

definition SIGNAL_TAGS :: "(int \<times> string) list" where
  "SIGNAL_TAGS = [
    (6, ''heart_rate''),
    (7, ''oxygen_saturation''),
    (8, ''perfusion_index''),
    (9, ''motion_activity''),
    (10, ''activity_classification''),
    (11, ''heart_rate_variability''),
    (12, ''respiration_rate''),
    (13, ''energy''),
    (15, ''ctemp''),
    (19, ''temperature_local''),
    (20, ''barometer_pressure''),
    (21, ''gsr_electrode''),
    (22, ''health_score''),
    (23, ''relax_stress_intensity_score''),
    (24, ''sleep_quality_index_score''),
    (25, ''training_effect_score''),
    (26, ''activity_score''),
    (66, ''richness_score''),
    (68, ''heart_rate_quality''),
    (69, ''oxygen_saturation_quality''),
    (70, ''blood_pulse_wave''),
    (71, ''number_of_steps''),
    (72, ''activity_classification_quality''),
    (73, ''energy_quality''),
    (74, ''heart_rate_variability_quality''),
    (75, ''respiration_rate_quality''),
    (76, ''ctemp_quality''),
    (118, ''temperature_object''),
    (119, ''temperature_barometer''),
    (133, ''perfusion_index_quality''),
    (134, ''blood_pulse_wave_quality'')]"

definition SENSOR_TAGS :: "(int \<times> string) list" where
  "SENSOR_TAGS = [
    (80, ''led1_data''),
    (81, ''led2_data''),
    (82, ''led3_data''),
    (83, ''led4_data''),
    (84, ''accx_data''),
    (85, ''accy_data''),
    (86, ''accz_data''),
    (88, ''led2_current''),
    (89, ''led3_current''),
    (90, ''led4_current''),
    (91, ''current_offset''),
    (92, ''compressed_data'')]"

definition FEATURE_TAGS :: "(int \<times> string) list" where
  "FEATURE_TAGS = [
    (14, ''inter_pulse_interval''),
    (17, ''pis''),
    (18, ''pid''),
    (77, ''inter_pulse_deviation''),
    (78, ''pis_quality''),
    (79, ''pid_quality'')]"

definition default_signal_tags :: "int list" where
  "default_signal_tags = [6, 7, 11, 12, 15, 19, 20, 21, 118, 119]"

definition default_sensor_tags :: "int list" where
  "default_sensor_tags = [80, 81, 82, 83, 84, 85, 86]"

definition default_feature_tags :: "int list" where
  "default_feature_tags = [14]"

definition ACC_NAMES :: "string list" where
  "ACC_NAMES = [''accx_data'', ''accy_data'', ''accz_data'']"

text \<open>\<open>_tag_name\<close>: the three dictionaries are probed in the order signal, sensor, feature.\<close>

definition tag_name :: "int \<Rightarrow> error + string" where
  "tag_name tag_number =
     (case map_of SIGNAL_TAGS tag_number of Some n \<Rightarrow> Inr n
      | None \<Rightarrow>
     (case map_of SENSOR_TAGS tag_number of Some n \<Rightarrow> Inr n
      | None \<Rightarrow>
     (case map_of FEATURE_TAGS tag_number of Some n \<Rightarrow> Inr n
      | None \<Rightarrow> Inl (KeyError_tag tag_number))))"

section \<open>Timestamp reconstruction (\<open>_convert_single_dataframe\<close>, lines 164--172)\<close>

text \<open>
  \<open>df['time'].astype(int) / 10**9\<close>: nanoseconds to (fractional) seconds.
\<close>

definition time_seconds :: "raw_row \<Rightarrow> real" where
  "time_seconds r = real_of_int (r_time r) / 10 ^ 9"

text \<open>
  \<open>df.groupby('time').agg(count_min, count_range)\<close>: the rows of \<open>df\<close> with one value of
  \<open>time\<close> form a group; \<open>group_counts\<close> is the \<open>count\<close> column of the group of time \<open>t\<close>.
\<close>

definition group_counts :: "raw_row list \<Rightarrow> real \<Rightarrow> int list" where
  "group_counts df t = map r_count (filter (\<lambda>x. time_seconds x = t) df)"

definition count_min :: "raw_row list \<Rightarrow> real \<Rightarrow> int" where
  "count_min df t = Min (set (group_counts df t))"

definition count_range :: "raw_row list \<Rightarrow> real \<Rightarrow> int" where
  "count_range df t = Max (set (group_counts df t)) - Min (set (group_counts df t)) + 1"

text \<open>
  \<open>df.merge(timestamps_min_and_count, on='time')\<close> gives every row the two aggregates of
  its own group, and
  \<open>df['time'] += (df['count'] - df['count_min']) / df['count_range']\<close> is a true division.
\<close>

definition reconstruct :: "raw_row list \<Rightarrow> raw_row \<Rightarrow> real" where
  "reconstruct df r =
     time_seconds r +
       real_of_int (r_count r - count_min df (time_seconds r)) /
       real_of_int (count_range df (time_seconds r))"

text \<open>The frame after line 172: every row with its reconstructed time.\<close>

definition reconstruct_times :: "raw_row list \<Rightarrow> (real \<times> raw_row) list" where
  "reconstruct_times df = map (\<lambda>r. (reconstruct df r, r)) df"

section \<open>Tag pivot (\<open>_convert_single_dataframe\<close>, lines 157--187)\<close>

text \<open>
  A pivoted frame: the column labels, and the rows in index order, each row being its index
  label (the reconstructed time) and one cell per column.  \<open>pd.DataFrame()\<close> is the frame
  with no column and no row.
\<close>

record wide_frame =
  wf_columns :: "string list"
  wf_rows :: "(real \<times> real option list) list"

definition empty_frame :: wide_frame where
  "empty_frame = \<lparr>wf_columns = [], wf_rows = []\<rparr>"

text \<open>
  \<open>DataFrame.drop_duplicates()\<close> keeps the first of the rows that are equal in every column
  (\<open>remdups\<close> keeps the last one, hence the two reversals).  A missing cell equals a missing
  cell, as in pandas.
\<close>

definition drop_duplicates :: "'a list \<Rightarrow> 'a list" where
  "drop_duplicates xs = rev (remdups (rev xs))"

text \<open>
  \<open>left.join(right, how='outer')\<close> for frames whose index has no duplicate label (every
  frame built below): pandas refuses overlapping column labels, the index of the result is
  the sorted union of the two indexes, and a label absent from one side gets missing cells
  in the columns of that side.
\<close>

definition lookup_row :: "wide_frame \<Rightarrow> real \<Rightarrow> real option list" where
  "lookup_row F t =
     (case map_of (wf_rows F) t of
        Some cs \<Rightarrow> cs
      | None \<Rightarrow> replicate (length (wf_columns F)) None)"

definition join_outer :: "wide_frame \<Rightarrow> wide_frame \<Rightarrow> error + wide_frame" where
  "join_outer L R =
     (if list_ex (\<lambda>c. c \<in> set (wf_columns R)) (wf_columns L)
      then Inl ValueError_columns_overlap
      else Inr \<lparr>wf_columns = wf_columns L @ wf_columns R,
                wf_rows = map (\<lambda>t. (t, lookup_row L t @ lookup_row R t))
                              (sort (remdups (map fst (wf_rows L) @ map fst (wf_rows R))))\<rparr>)"

text \<open>Line 177: the label of the quality column of a tag.\<close>

definition quality_name :: "int \<Rightarrow> string \<Rightarrow> string" where
  "quality_name tag name = (if tag = 14 then name @ ''_deviation'' else name @ ''_quality'')"

text \<open>
  Lines 178--180.  After the renaming and the removal of the bookkeeping columns, the frame
  of one tag has the columns \<open>time\<close>, \<open>tag_name\<close> and, when the raw frame has a \<open>quality\<close>
  column, \<open>quality_name\<close>.  \<open>dropna(axis=1)\<close> is called with the default \<open>how='any'\<close>: it
  removes every column that has a missing cell in some row.  \<open>time\<close> has none.  The time is
  kept here as the label of the row from the start; the source makes it the index at line 183.
\<close>

definition keeps_values :: "(real \<times> raw_row) list \<Rightarrow> bool" where
  "keeps_values group_df = list_all (\<lambda>(t, r). r_values r \<noteq> None) group_df"

definition keeps_quality :: "bool \<Rightarrow> (real \<times> raw_row) list \<Rightarrow> bool" where
  "keeps_quality hq group_df = (hq \<and> list_all (\<lambda>(t, r). r_quality r \<noteq> None) group_df)"

definition sub_df_columns :: "bool \<Rightarrow> string \<Rightarrow> string \<Rightarrow> (real \<times> raw_row) list \<Rightarrow> string list" where
  "sub_df_columns hq name qname group_df =
     (if keeps_values group_df then [name] else []) @
     (if keeps_quality hq group_df then [qname] else [])"

definition sub_df_cells :: "bool \<Rightarrow> (real \<times> raw_row) list \<Rightarrow> raw_row \<Rightarrow> real option list" where
  "sub_df_cells hq group_df r =
     (if keeps_values group_df then [r_values r] else []) @
     (if keeps_quality hq group_df then [r_quality r] else [])"

definition sub_df :: "bool \<Rightarrow> string \<Rightarrow> string \<Rightarrow> (real \<times> raw_row) list \<Rightarrow> wide_frame" where
  "sub_df hq name qname group_df =
     \<lparr>wf_columns = sub_df_columns hq name qname group_df,
      wf_rows = map (\<lambda>(t, r). (t, sub_df_cells hq group_df r)) group_df\<rparr>"

text \<open>
  The body of the loop over the tags, lines 176--185: \<open>new_df\<close> is the frame accumulated so
  far.  \<open>sub_df.empty\<close> holds when the frame has no row (it always has the column \<open>time\<close>).
  \<open>sub_df[tag_name]\<close> raises \<open>KeyError\<close> when \<open>dropna\<close> has removed that column; otherwise the
  column holds the values of the group.
\<close>

definition pivot_tag :: "bool \<Rightarrow> wide_frame \<Rightarrow> int \<times> (real \<times> raw_row) list \<Rightarrow> error + wide_frame" where
  "pivot_tag hq new_df tg =
     (case tg of (tag, group_df) \<Rightarrow>
      (case tag_name tag of
         Inl e \<Rightarrow> Inl e
       | Inr name \<Rightarrow>
           (let sub = sub_df hq name (quality_name tag name) group_df
            in if wf_rows sub = [] then Inr new_df
               else if name \<notin> set (wf_columns sub) then Inl (KeyError_column name)
               else if list_all (\<lambda>(t, r). r_values r = Some 0) group_df then Inr new_df
               else if \<not> distinct (map fst (wf_rows sub)) then Inl ValueError_duplicate_keys
               else join_outer new_df (sub\<lparr>wf_rows := sort_key fst (wf_rows sub)\<rparr>))))"

fun pivot_loop :: "bool \<Rightarrow> wide_frame \<Rightarrow> (int \<times> (real \<times> raw_row) list) list \<Rightarrow> error + wide_frame" where
  "pivot_loop hq new_df [] = Inr new_df"
| "pivot_loop hq new_df (tg # rest) =
     (case pivot_tag hq new_df tg of
        Inl e \<Rightarrow> Inl e
      | Inr new_df' \<Rightarrow> pivot_loop hq new_df' rest)"

text \<open>
  \<open>df.groupby('tag')\<close>: one group per tag, the tags in increasing order; the group of a tag
  is the frame of the rows with that tag.
\<close>

definition tag_sub_table :: "int \<Rightarrow> (real \<times> raw_row) list \<Rightarrow> (real \<times> raw_row) list" where
  "tag_sub_table tag df = filter (\<lambda>(t, r). r_tag r = tag) df"

definition tag_groups :: "(real \<times> raw_row) list \<Rightarrow> (int \<times> (real \<times> raw_row) list) list" where
  "tag_groups df =
     map (\<lambda>tag. (tag, tag_sub_table tag df))
         (sort (remdups (map (\<lambda>(t, r). r_tag r) df)))"

text \<open>Lines 160--162: the rows that reach the reconstruction.\<close>

definition selected_rows :: "raw_table \<Rightarrow> int list option \<Rightarrow> raw_row list" where
  "selected_rows T selected_tags =
     (let df = drop_duplicates (table_rows T)
      in case selected_tags of
           None \<Rightarrow> df
         | Some sel \<Rightarrow> filter (\<lambda>r. r_tag r \<in> set sel) df)"

definition convert_single_dataframe :: "raw_table option \<Rightarrow> int list option \<Rightarrow> error + wide_frame" where
  "convert_single_dataframe df selected_tags =
     (case df of
        None \<Rightarrow> Inr empty_frame
      | Some T \<Rightarrow>
          pivot_loop (has_quality T) empty_frame
            (tag_groups (reconstruct_times (selected_rows T selected_tags))))"

section \<open>The reader and \<open>_join\<close> (lines 142--155)\<close>

text \<open>
  The attributes of an \<open>EverionReader\<close>.  A raw frame that was not loaded is \<open>None\<close>.
\<close>

record everion_reader =
  selected_signal_tags :: "int list"
  selected_feature_tags :: "int list"
  selected_sensor_tags :: "int list"
  aggregates :: "raw_table option"
  analytics_events :: "raw_table option"
  attributes_dailys :: "raw_table option"
  everion_events :: "raw_table option"
  features :: "raw_table option"
  sensors :: "raw_table option"
  signals :: "raw_table option"
  data :: wide_frame

text \<open>
  \<open>self.data[self.ACC_NAMES]\<close> picks the cells of the named columns of a row, and
  \<open>np.linalg.norm(..., axis='1')\<close> is, row by row, the square root of the sum of the squares
  (\<open>int('1')\<close> is the axis); a missing cell makes the norm missing.
\<close>

definition cell :: "string list \<Rightarrow> real option list \<Rightarrow> string \<Rightarrow> real option option" where
  "cell cols cs name = map_of (zip cols cs) name"

definition select_cells :: "string list \<Rightarrow> real option list \<Rightarrow> string list \<Rightarrow> real option list" where
  "select_cells cols cs names =
     map (\<lambda>n. case cell cols cs n of Some c \<Rightarrow> c | None \<Rightarrow> None) names"

definition linalg_norm :: "real option list \<Rightarrow> real option" where
  "linalg_norm xs = map_option (\<lambda>vs. sqrt (sum_list (map (\<lambda>v. v * v) vs))) (those xs)"

text \<open>
  Lines 154--155.  No name of the catalogs and no quality label is \<open>acc_mag\<close>, so the
  assignment \<open>self.data['acc_mag'] = ...\<close> adds a new last column.
\<close>

definition add_acc_mag :: "wide_frame \<Rightarrow> wide_frame" where
  "add_acc_mag d =
     (if list_all (\<lambda>x. x \<in> set (wf_columns d)) ACC_NAMES
      then \<lparr>wf_columns = wf_columns d @ [''acc_mag''],
            wf_rows = map (\<lambda>(t, cs). (t, cs @ [linalg_norm (select_cells (wf_columns d) cs ACC_NAMES)]))
                          (wf_rows d)\<rparr>
      else d)"

text \<open>
  The loop of lines 151--152 over the three pivoted frames; when a join raises, \<open>self.data\<close>
  keeps the frame joined so far.
\<close>

fun join_frames :: "wide_frame \<Rightarrow> wide_frame list \<Rightarrow> (error + unit) \<times> wide_frame" where
  "join_frames d [] = (Inr (), d)"
| "join_frames d (df # dataframes) =
     (case join_outer d df of
        Inl e \<Rightarrow> (Inl e, d)
      | Inr d' \<Rightarrow> join_frames d' dataframes)"

text \<open>
  \<open>_join\<close> returns nothing and updates \<open>self.data\<close>; the result is the exception raised, if
  any, and the reader afterwards.
\<close>

definition join :: "everion_reader \<Rightarrow> (error + unit) \<times> everion_reader" where
  "join s =
     (case convert_single_dataframe (signals s) (Some (selected_signal_tags s)) of
        Inl e \<Rightarrow> (Inl e, s)
      | Inr signals_df \<Rightarrow>
     (case convert_single_dataframe (features s) (Some (selected_feature_tags s)) of
        Inl e \<Rightarrow> (Inl e, s)
      | Inr features_df \<Rightarrow>
     (case convert_single_dataframe (sensors s) (Some (selected_sensor_tags s)) of
        Inl e \<Rightarrow> (Inl e, s)
      | Inr sensors_df \<Rightarrow>
     (case join_frames empty_frame [signals_df, features_df, sensors_df] of
        (Inl e, d) \<Rightarrow> (Inl e, s\<lparr>data := d\<rparr>)
      | (Inr u, d) \<Rightarrow> (Inr (), s\<lparr>data := add_acc_mag d\<rparr>)))))"

section \<open>\<open>timeshift\<close> (lines 234--253)\<close>

text \<open>
  The argument of \<open>timeshift\<close>: the string \<open>'random'\<close>, a \<open>pd.Timestamp\<close> or a
  \<open>pd.Timedelta\<close> (both a number of nanoseconds), or anything else.  The random source is not
  part of the model: \<open>Random n\<close> carries the nanoseconds \<open>n\<close> of
  \<open>pd.Timedelta(random.uniform(one_month, two_years))\<close>.
\<close>

datatype shift = Random int | Timestamp int | Timedelta int | Other

text \<open>\<open>Timedelta.round('s')\<close>: to the nearest whole second, a tie to the even second.\<close>

definition round_s :: "int \<Rightarrow> int" where
  "round_s n =
     (let q = n div 10 ^ 9; r = n mod 10 ^ 9
      in if 2 * r < 10 ^ 9 then q * 10 ^ 9
         else if 2 * r > 10 ^ 9 then (q + 1) * 10 ^ 9
         else if even q then q * 10 ^ 9 else (q + 1) * 10 ^ 9)"

text \<open>Lines 242--243 and line 247, on one raw frame.  \<open>min()\<close> is taken over the frame's own rows.\<close>

definition anchor_table :: "int \<Rightarrow> raw_table \<Rightarrow> raw_table" where
  "anchor_table shift df =
     df\<lparr>rows := map (\<lambda>r. r\<lparr>r_time := shift + (r_time r - Min (set (map r_time (rows df))))\<rparr>)
                     (rows df)\<rparr>"

definition shift_table :: "int \<Rightarrow> raw_table \<Rightarrow> raw_table" where
  "shift_table shift df = df\<lparr>rows := map (\<lambda>r. r\<lparr>r_time := r_time r + shift\<rparr>) (rows df)\<rparr>"

text \<open>\<open>_raw_dataframes\<close>: the raw frames that are loaded, in the order of the source.\<close>

definition raw_dataframes :: "everion_reader \<Rightarrow> raw_table list" where
  "raw_dataframes s =
     concat (map (\<lambda>df. case df of None \<Rightarrow> [] | Some T \<Rightarrow> [T])
       [aggregates s, analytics_events s, attributes_dailys s, everion_events s,
        features s, sensors s, signals s])"

text \<open>
  \<open>for df in self._raw_dataframes(): df['time'] = ...\<close> changes each loaded frame in place:
  the seven attributes are updated, those that are \<open>None\<close> stay \<open>None\<close>.
\<close>

definition update_raw_dataframes :: "(raw_table \<Rightarrow> raw_table) \<Rightarrow> everion_reader \<Rightarrow> everion_reader" where
  "update_raw_dataframes f s =
     s\<lparr>aggregates := map_option f (aggregates s),
       analytics_events := map_option f (analytics_events s),
       attributes_dailys := map_option f (attributes_dailys s),
       everion_events := map_option f (everion_events s),
       features := map_option f (features s),
       sensors := map_option f (sensors s),
       signals := map_option f (signals s)\<rparr>"

text \<open>
  \<open>timeshift\<close>.  The three \<open>if\<close> statements are tried one after the other; after the
  recursive call of the random branch the two others do not apply to the string \<open>'random'\<close>.
\<close>

definition timeshift_timedelta :: "int \<Rightarrow> everion_reader \<Rightarrow> (error + unit) \<times> everion_reader" where
  "timeshift_timedelta shift s = join (update_raw_dataframes (shift_table shift) s)"

definition timeshift :: "shift \<Rightarrow> everion_reader \<Rightarrow> (error + unit) \<times> everion_reader" where
  "timeshift shift s =
     (case shift of
        Random n \<Rightarrow> timeshift_timedelta (- round_s n) s
      | Timestamp a \<Rightarrow> join (update_raw_dataframes (anchor_table a) s)
      | Timedelta d \<Rightarrow> timeshift_timedelta d s
      | Other \<Rightarrow> (Inr (), s))"

section \<open>Loading and persisting (\<open>__init__\<close>, \<open>_init_filelist\<close>, \<open>_read_file\<close>, \<open>write\<close>)\<close>

text \<open>
  A row of a CSV file of the device, and of the frame \<open>pd.read_csv\<close> makes of it: \<open>time\<close> in
  whole seconds, and the cell of the column \<open>values\<close>, of type \<open>'v\<close>: the text of the cell
  in the file (\<open>string\<close>), a number or a missing value in a \<open>float64\<close> column
  (\<open>real option\<close>), a Python string or a missing value in an \<open>object\<close> column
  (\<open>string option\<close>).
\<close>

record 'v csv_row =
  c_time :: int
  c_tag :: int
  c_values :: 'v
  c_count :: int
  c_streamType :: string

definition set_values :: "'a csv_row \<Rightarrow> 'b \<Rightarrow> 'b csv_row" where
  "set_values x v =
     \<lparr>c_time = c_time x, c_tag = c_tag x, c_values = v, c_count = c_count x,
      c_streamType = c_streamType x\<rparr>"

text \<open>
  The date parser \<open>pd.to_datetime(x, unit='s')\<close> turns the seconds of the file into
  nanoseconds.
\<close>

definition raw_of :: "'a csv_row \<Rightarrow> real option \<Rightarrow> real option \<Rightarrow> raw_row" where
  "raw_of x v q =
     \<lparr>r_time = c_time x * 10 ^ 9, r_tag = c_tag x, r_values = v, r_quality = q,
      r_count = c_count x, r_streamType = c_streamType x\<rparr>"

text \<open>\<open>str.split(sep)\<close> of Python: the pieces between the separators, at least one piece.\<close>

fun split_on :: "char \<Rightarrow> string \<Rightarrow> string list" where
  "split_on sep [] = [[]]"
| "split_on sep (c # cs) =
     (if c = sep then [] # split_on sep cs
      else (case split_on sep cs of
              [] \<Rightarrow> [[c]]
            | p # ps \<Rightarrow> (c # p) # ps))"

text \<open>
  The conversions between text and \<open>float64\<close> belong to pandas and Python, not to the module;
  they are parameters of the model:
  \<^item> \<open>csv_float\<close> is the reading of a cell by the CSV parser: \<open>Some (Some v)\<close> for the text of
    a number, \<open>Some None\<close> for a cell that stands for a missing value, \<open>None\<close> for any other
    text;
  \<^item> \<open>py_float\<close> is \<open>float(s)\<close>: \<open>Some (Some v)\<close> for a number, \<open>Some None\<close> for \<open>nan\<close>, and
    \<open>None\<close> when Python raises \<open>ValueError\<close>;
  \<^item> \<open>str_of\<close> is \<open>str(x)\<close> of a number \<open>x\<close>.
\<close>

text \<open>
  The cell of an \<open>object\<close> column: \<open>pd.read_csv\<close> leaves the text, except that a cell that
  stands for a missing value is missing.
\<close>

definition object_cell :: "(string \<Rightarrow> real option option) \<Rightarrow> string \<Rightarrow> string option" where
  "object_cell csv_float s = (if csv_float s = Some None then None else Some s)"

definition object_row :: "(string \<Rightarrow> real option option) \<Rightarrow> string csv_row \<Rightarrow> string option csv_row" where
  "object_row csv_float x = set_values x (object_cell csv_float (c_values x))"

text \<open>\<open>astype(float)\<close> on a cell of an \<open>object\<close> column: a missing cell stays missing.\<close>

definition astype_float :: "(string \<Rightarrow> real option option) \<Rightarrow> string option \<Rightarrow> real option option" where
  "astype_float py_float c = (case c of None \<Rightarrow> Some None | Some s \<Rightarrow> py_float s)"

text \<open>
  \<open>str.split(';', expand=True)\<close> on a cell: a missing cell gives no piece (every column of
  its row is missing).  \<open>parse_parts\<close> is \<open>astype(float)\<close> on the row of pieces, for a frame
  of two columns: an absent second piece is missing.
\<close>

definition parts :: "string option \<Rightarrow> string list" where
  "parts c = (case c of None \<Rightarrow> [] | Some s \<Rightarrow> split_on CHR '';'' s)"

definition parse_parts :: "(string \<Rightarrow> real option option) \<Rightarrow> string list \<Rightarrow> (real option \<times> real option) option" where
  "parse_parts py_float ps =
     (case ps of
        [] \<Rightarrow> Some (None, None)
      | [a] \<Rightarrow> map_option (\<lambda>v. (v, None)) (py_float a)
      | [a, b] \<Rightarrow> (case (py_float a, py_float b) of
                     (Some v, Some q) \<Rightarrow> Some (v, q)
                   | _ \<Rightarrow> None)
      | _ \<Rightarrow> None)"

text \<open>
  \<open>_read_file\<close>, lines 131--140, on the rows of the file.  \<open>pd.read_csv\<close> makes \<open>values\<close> a
  \<open>float64\<close> column when every cell reads as a number or a missing value, and an \<open>object\<close>
  column otherwise; then come \<open>drop_duplicates()\<close> and \<open>astype(float)\<close>.  On \<open>ValueError\<close> the
  column is split at \<open>;\<close>: the assignment to the two columns \<open>values\<close> and \<open>quality\<close> needs
  exactly two columns of pieces, and every piece must convert.
\<close>

definition load_frame ::
  "(string \<Rightarrow> real option option) \<Rightarrow> (string \<Rightarrow> real option option) \<Rightarrow> string csv_row list
     \<Rightarrow> error + raw_table" where
  "load_frame csv_float py_float file_rows =
     (case those (map (\<lambda>x. csv_float (c_values x)) file_rows) of
        Some vs \<Rightarrow>
          Inr \<lparr>has_quality = False,
               rows = map (\<lambda>x. raw_of x (c_values x) None)
                          (drop_duplicates (map (\<lambda>(x, v). set_values x v) (zip file_rows vs)))\<rparr>
      | None \<Rightarrow>
          (let df = drop_duplicates (map (object_row csv_float) file_rows)
           in case those (map (\<lambda>x. astype_float py_float (c_values x)) df) of
                Some vs \<Rightarrow>
                  Inr \<lparr>has_quality = False,
                       rows = map (\<lambda>(x, v). raw_of x v None) (zip df vs)\<rparr>
              | None \<Rightarrow>
                  if Max (set (0 # map (\<lambda>x. length (parts (c_values x))) df)) \<noteq> 2
                  then Inl ValueError_shape
                  else (case those (map (\<lambda>x. parse_parts py_float (parts (c_values x))) df) of
                          None \<Rightarrow> Inl ValueError_shape
                        | Some vqs \<Rightarrow>
                            Inr \<lparr>has_quality = True,
                                 rows = map (\<lambda>(x, (v, q)). raw_of x v q) (zip df vqs)\<rparr>)))"

text \<open>
  The file system as the constructor sees it: whether \<open>path\<close> is a directory, the files of
  \<open>path\<close> whose name contains a pattern, and the rows of a file.  The accesses to the files
  are recorded, in order.
\<close>

record filesystem =
  isdir :: bool
  glob :: "string \<Rightarrow> string list"
  read_csv :: "string \<Rightarrow> string csv_row list"

datatype io_event = Glob string | Read_csv string

definition file_patterns :: "string list" where
  "file_patterns = [''aggregates'', ''analytics_events'', ''attributes_dailys'',
                    ''everion_events'', ''features'', ''sensor_data'', ''signals'']"

text \<open>\<open>_init_filelist\<close>: a pattern gets a file when exactly one file matches it.\<close>

definition init_filelist :: "filesystem \<Rightarrow> io_event list \<times> (string \<times> string) list" where
  "init_filelist fs =
     (map Glob file_patterns,
      concat (map (\<lambda>pattern. case glob fs pattern of
                                [filename] \<Rightarrow> [(pattern, filename)]
                              | _ \<Rightarrow> [])
                  file_patterns))"

definition read_file ::
  "(string \<Rightarrow> real option option) \<Rightarrow> (string \<Rightarrow> real option option) \<Rightarrow> filesystem
     \<Rightarrow> (string \<times> string) list \<Rightarrow> string \<Rightarrow> io_event list \<times> (error + raw_table option)" where
  "read_file csv_float py_float fs filelist filepattern =
     (case map_of filelist filepattern of
        None \<Rightarrow> ([], Inr None)
      | Some filepath \<Rightarrow>
          ([Read_csv filepath],
           map_sum id Some (load_frame csv_float py_float (read_csv fs filepath))))"

text \<open>Sequencing of steps that access files and may raise.\<close>

definition io_bind ::
  "io_event list \<times> (error + 'a) \<Rightarrow> ('a \<Rightarrow> io_event list \<times> (error + 'b))
     \<Rightarrow> io_event list \<times> (error + 'b)" where
  "io_bind m f =
     (case m of
        (ev, Inl e) \<Rightarrow> (ev, Inl e)
      | (ev, Inr x) \<Rightarrow> (case f x of (ev', r) \<Rightarrow> (ev @ ev', r)))"

text \<open>Lines 80--91: the first tag of the list that is not a key of the catalog raises.\<close>

definition validate_tags :: "(int \<Rightarrow> error) \<Rightarrow> (int \<times> string) list \<Rightarrow> int list \<Rightarrow> error + unit" where
  "validate_tags err catalog tags =
     (case find (\<lambda>tag. map_of catalog tag = None) tags of
        Some tag \<Rightarrow> Inl (err tag)
      | None \<Rightarrow> Inr ())"

text \<open>
  \<open>__init__\<close>: the result is the accesses to the files and either the exception raised or
  the reader constructed.
\<close>

definition init ::
  "(string \<Rightarrow> real option option) \<Rightarrow> (string \<Rightarrow> real option option) \<Rightarrow> filesystem
     \<Rightarrow> int list \<Rightarrow> int list \<Rightarrow> int list \<Rightarrow> io_event list \<times> (error + everion_reader)" where
  "init csv_float py_float fs signal_tags sensor_tags feature_tags =
     (if \<not> isdir fs then ([], Inl OSError)
      else case validate_tags KeyError_signal_tag SIGNAL_TAGS signal_tags of
        Inl e \<Rightarrow> ([], Inl e)
      | Inr u1 \<Rightarrow>
     (case validate_tags KeyError_feature_tag FEATURE_TAGS feature_tags of
        Inl e \<Rightarrow> ([], Inl e)
      | Inr u2 \<Rightarrow>
     (case validate_tags KeyError_sensor_tag SENSOR_TAGS sensor_tags of
        Inl e \<Rightarrow> ([], Inl e)
      | Inr u3 \<Rightarrow>
     (case init_filelist fs of (ev, filelist) \<Rightarrow>
        io_bind (ev, Inr ()) (\<lambda>u.
        io_bind (read_file csv_float py_float fs filelist ''aggregates'') (\<lambda>df1.
        io_bind (read_file csv_float py_float fs filelist ''analytics_events'') (\<lambda>df2.
        io_bind (read_file csv_float py_float fs filelist ''attributes_dailys'') (\<lambda>df3.
        io_bind (read_file csv_float py_float fs filelist ''everion_events'') (\<lambda>df4.
        io_bind (read_file csv_float py_float fs filelist ''features'') (\<lambda>df5.
        io_bind (read_file csv_float py_float fs filelist ''sensor_data'') (\<lambda>df6.
        io_bind (read_file csv_float py_float fs filelist ''signals'') (\<lambda>df7.
          case join \<lparr>selected_signal_tags = signal_tags,
                     selected_feature_tags = feature_tags,
                     selected_sensor_tags = sensor_tags,
                     aggregates = df1, analytics_events = df2, attributes_dailys = df3,
                     everion_events = df4, features = df5, sensors = df6, signals = df7,
                     data = empty_frame\<rparr> of
            (Inl e, s) \<Rightarrow> ([], Inl e)
          | (Inr u', s) \<Rightarrow> ([], Inr s)))))))))))))"

text \<open>
  \<open>_write_single_df\<close>, lines 223--232: the rows handed to \<open>to_csv\<close>, with the text of the cell
  of \<open>values\<close>.  \<open>(time.astype(int) / 10**9).astype(int)\<close> truncates towards zero.  With a
  \<open>quality\<close> column the cell is \<open>str(value)\<close> (\<open>nan\<close> for a missing value), followed by \<open>;\<close>
  and \<open>str(quality)\<close> in the rows where the quality is present; without it \<open>to_csv\<close> writes
  the number, and nothing for a missing value.
\<close>

definition trunc_seconds :: "int \<Rightarrow> int" where
  "trunc_seconds n = (if 0 \<le> n then n div 10 ^ 9 else - ((- n) div 10 ^ 9))"

definition astype_str :: "(real \<Rightarrow> string) \<Rightarrow> real option \<Rightarrow> string" where
  "astype_str str_of v = (case v of None \<Rightarrow> ''nan'' | Some x \<Rightarrow> str_of x)"

definition write_cell :: "(real \<Rightarrow> string) \<Rightarrow> bool \<Rightarrow> raw_row \<Rightarrow> string" where
  "write_cell str_of hq r =
     (if hq
      then astype_str str_of (r_values r) @
             (case r_quality r of None \<Rightarrow> [] | Some q \<Rightarrow> '';'' @ str_of q)
      else (case r_values r of None \<Rightarrow> [] | Some x \<Rightarrow> str_of x))"

definition write_row :: "(real \<Rightarrow> string) \<Rightarrow> bool \<Rightarrow> raw_row \<Rightarrow> string csv_row" where
  "write_row str_of hq r =
     \<lparr>c_time = trunc_seconds (r_time r), c_tag = r_tag r,
      c_values = write_cell str_of hq r,
      c_count = r_count r, c_streamType = r_streamType r\<rparr>"

definition write_single_df :: "(real \<Rightarrow> string) \<Rightarrow> raw_table \<Rightarrow> string csv_row list" where
  "write_single_df str_of df = map (write_row str_of (has_quality df)) (rows df)"

text \<open>\<open>write\<close> (\<open>write\<close> is a keyword of Isabelle): one file for every raw frame that is loaded.\<close>

definition write_reader :: "(real \<Rightarrow> string) \<Rightarrow> everion_reader \<Rightarrow> (string \<times> string csv_row list) list" where
  "write_reader str_of s =
     concat (map (\<lambda>(name, df). case df of
                                  None \<Rightarrow> []
                                | Some T \<Rightarrow> [(name, write_single_df str_of T)])
       [(''aggregates.csv'', aggregates s), (''analytics_events.csv'', analytics_events s),
        (''attributes_dailys.csv'', attributes_dailys s), (''everion_events.csv'', everion_events s),
        (''features.csv'', features s), (''sensor_data.csv'', sensors s),
        (''signals.csv'', signals s)])"

section \<open>Notions used in the statements\<close>

text \<open>Every row of a frame has one cell per column.\<close>

definition frame_ok :: "wide_frame \<Rightarrow> bool" where
  "frame_ok F = list_all (\<lambda>(t, cs). length cs = length (wf_columns F)) (wf_rows F)"

text \<open>
  The Euclidean norm of three cells of a row, as the specification words it: the square root
  of the sum of the squares, missing when a cell is missing (or when there is no such cell).
\<close>

definition euclid :: "real option option \<Rightarrow> real option option \<Rightarrow> real option option \<Rightarrow> real option" where
  "euclid cx cy cz =
     (case (cx, cy, cz) of
        (Some (Some x), Some (Some y), Some (Some z)) \<Rightarrow> Some (sqrt (x\<^sup>2 + y\<^sup>2 + z\<^sup>2))
      | _ \<Rightarrow> None)"

text \<open>
  A uniform translation of time, on a raw row (nanoseconds), on a row with its reconstructed
  time, and on the index of a pivoted frame (seconds).
\<close>

definition shift_row :: "int \<Rightarrow> raw_row \<Rightarrow> raw_row" where
  "shift_row d r = r\<lparr>r_time := r_time r + d\<rparr>"

definition shift_frame :: "real \<Rightarrow> wide_frame \<Rightarrow> wide_frame" where
  "shift_frame \<delta> F = F\<lparr>wf_rows := map (\<lambda>(t, cs). (t + \<delta>, cs)) (wf_rows F)\<rparr>"



text \<open>The row of a raw frame as it comes back from a file: the time in whole seconds.\<close>

definition truncate_time :: "raw_row \<Rightarrow> raw_row" where
  "truncate_time r = r\<lparr>r_time := trunc_seconds (r_time r) * 10 ^ 9\<rparr>"



section \<open>Example data\<close>



definition q_row :: "int \<Rightarrow> int \<Rightarrow> real option \<Rightarrow> real option \<Rightarrow> int \<Rightarrow> raw_row" where
  "q_row t tg v q c = \<lparr>r_time = t, r_tag = tg, r_values = v, r_quality = q, r_count = c, r_streamType = ''s''\<rparr>"

definition ex_partial_quality :: raw_table where 
  "ex_partial_quality = \<lparr>has_quality = True, rows = [q_row 2000000000 6 (Some 60) (Some 1) 3, q_row 3000000000 6 (Some 61) None 4]\<rparr>"

definition ex_full_quality :: raw_table where 
  "ex_full_quality = \<lparr>has_quality = True, rows = [q_row 2000000000 6 (Some 60) (Some 1) 3, q_row 3000000000 6 (Some 61) (Some 2) 4]\<rparr>"

definition ex_zero_duplicate :: raw_table where
  "ex_zero_duplicate = \<lparr>has_quality = True, rows = [q_row 2000000000 6 (Some 0) (Some 1) 3, q_row 2000000000 6 (Some 0) (Some 2) 3]\<rparr>"

definition ex_duplicate :: raw_table where
  "ex_duplicate = \<lparr>has_quality = True, rows = [q_row 2000000000 6 (Some 60) (Some 1) 3, q_row 2000000000 6 (Some 61) (Some 2) 3]\<rparr>"

definition ex_zero_tag :: raw_table where
  "ex_zero_tag = \<lparr>has_quality = False, rows = [q_row 2000000000 6 (Some 0) None 3, q_row 2000000000 7 (Some 98) None 4,  q_row 3000000000 6 (Some 0) None 5]\<rparr>"

definition ex_reader :: "raw_table option \<Rightarrow> raw_table option \<Rightarrow> raw_table option \<Rightarrow> everion_reader" where
  "ex_reader sig fea sen =
     \<lparr>selected_signal_tags = default_signal_tags, selected_feature_tags = default_feature_tags,
      selected_sensor_tags = default_sensor_tags,
      aggregates = None, analytics_events = None, attributes_dailys = None, everion_events = None,
      features = fea, sensors = sen, signals = sig, data = empty_frame\<rparr>"

definition ex_signals :: raw_table where
  "ex_signals = \<lparr>has_quality = True, rows = [q_row 5000000000 6 (Some 60) (Some 1) 3, q_row 7000000000 6 (Some 61) (Some 2) 4]\<rparr>"

definition ex_sensors :: raw_table where
  "ex_sensors = \<lparr>has_quality = False, rows =
     [q_row 5000000000 84 (Some 3) None 1, q_row 5000000000 85 (Some 4) None 1,
      q_row 5000000000 86 (Some 0) None 1,
      q_row 6000000000 84 (Some 1) None 2, q_row 6000000000 85 (Some 2) None 2,
      q_row 6000000000 86 (Some 2) None 2,
      q_row 7000000000 84 (Some 6) None 3]\<rparr>"


definition ex_float :: "string \<Rightarrow> real option option" where
  "ex_float s =
     (if s = ''60.0'' then Some (Some 60)
      else if s = ''1.0'' then Some (Some 1)
      else if s = ''0.0'' then Some (Some 0)
      else if s = ''nan'' \<or> s = [] then Some None
      else None)"



definition ex_file_row :: "string csv_row" where
  "ex_file_row = \<lparr>c_time = 2, c_tag = 6, c_values = ''60.0'', c_count = 3, c_streamType = ''s''\<rparr>"

definition ex_empty_dir :: filesystem where
  "ex_empty_dir = \<lparr>isdir = True, glob = (\<lambda>pattern. []), read_csv = (\<lambda>filepath. [])\<rparr>"

section \<open>Properties of the reconstruction\<close>















section \<open>Properties of the tag pivot\<close>

lemma quality_name_neq: "quality_name tag name \<noteq> name"
  by (simp add: quality_name_def)

lemma sub_df_rows_fst: "map fst (wf_rows (sub_df hq name qname g)) = map fst g"
  by (simp add: sub_df_def comp_def case_prod_unfold)

lemma sub_df_rows_Nil: "wf_rows (sub_df hq name qname g) = [] \<longleftrightarrow> g = []"
  by (simp add: sub_df_def)

lemma name_in_sub_df:
  "name \<in> set (wf_columns (sub_df hq name (quality_name tag name) g)) \<longleftrightarrow> keeps_values g"
  using quality_name_neq [of tag name] by (auto simp: sub_df_def sub_df_columns_def)

lemma qname_in_sub_df:
  "quality_name tag name \<in> set (wf_columns (sub_df hq name (quality_name tag name) g))
     \<longleftrightarrow> keeps_quality hq g"
  using quality_name_neq [of tag name] by (auto simp: sub_df_def sub_df_columns_def)

lemma join_outer_columns:
  "join_outer L R = Inr F \<Longrightarrow> wf_columns F = wf_columns L @ wf_columns R"
  by (auto simp: join_outer_def split: if_splits)

lemma pivot_tag_skip:
  assumes "tag_name tag = Inr name"
    and "g = [] \<or> list_all (\<lambda>(t, r). r_values r = Some 0) g"
  shows "pivot_tag hq new_df (tag, g) = Inr new_df"
proof (cases "g = []")
  case True
  then show ?thesis using assms(1) by (simp add: pivot_tag_def sub_df_rows_Nil)
next
  case False
  with assms(2) have z: "list_all (\<lambda>(t, r). r_values r = Some 0) g" by simp
  then have "keeps_values g"
    unfolding keeps_values_def list_all_iff by fastforce
  then show ?thesis
    using assms(1) z False by (simp add: pivot_tag_def sub_df_rows_Nil name_in_sub_df)
qed

lemma pivot_tag_duplicate:
  assumes "\<not> distinct (map fst g)"
    and "\<not> list_all (\<lambda>(t, r). r_values r = Some 0) g"
  shows "isl (pivot_tag hq new_df (tag, g))"
proof (cases "tag_name tag")
  case (Inl e)
  then show ?thesis by (simp add: pivot_tag_def)
next
  case (Inr name)
  have "g \<noteq> []" using assms(1) by auto
  then show ?thesis
    using Inr assms by (simp add: pivot_tag_def sub_df_rows_Nil sub_df_rows_fst Let_def)
qed

lemma pivot_tag_duplicate_keys:
  assumes "\<not> distinct (map fst g)"
    and "\<not> list_all (\<lambda>(t, r). r_values r = Some 0) g"
    and "tag_name tag = Inr name" and "keeps_values g"
  shows "pivot_tag hq new_df (tag, g) = Inl ValueError_duplicate_keys"
proof -
  have "g \<noteq> []" using assms(1) by auto
  then show ?thesis
    using assms by (simp add: pivot_tag_def sub_df_rows_Nil sub_df_rows_fst name_in_sub_df)
qed

lemma pivot_loop_error:
  assumes "tg \<in> set gs" and "\<And>acc. isl (pivot_tag hq acc tg)"
  shows "isl (pivot_loop hq new_df gs)"
  using assms(1)
proof (induction gs arbitrary: new_df)
  case Nil
  then show ?case by simp
next
  case (Cons a gs)
  show ?case
  proof (cases "pivot_tag hq new_df a")
    case (Inl e)
    then show ?thesis by simp
  next
    case (Inr F)
    with assms(2) [of new_df] have "a \<noteq> tg" by auto
    with Cons.prems have "tg \<in> set gs" by simp
    from Cons.IH [OF this] show ?thesis using Inr by simp
  qed
qed

lemma pivot_loop_filter:
  assumes "\<And>acc tg. tg \<in> set gs \<Longrightarrow> \<not> P tg \<Longrightarrow> pivot_tag hq acc tg = Inr acc"
  shows "pivot_loop hq new_df gs = pivot_loop hq new_df (filter P gs)"
  using assms
proof (induction gs arbitrary: new_df)
  case Nil
  then show ?case by simp
next
  case (Cons a gs)
  have IH: "\<And>d. pivot_loop hq d gs = pivot_loop hq d (filter P gs)"
    using Cons.IH Cons.prems by simp
  show ?case
  proof (cases "P a")
    case True
    then show ?thesis using IH by (simp split: sum.splits)
  next
    case False
    then have "pivot_tag hq new_df a = Inr new_df" using Cons.prems by simp
    then show ?thesis using False IH by simp
  qed
qed

lemma tag_groups_mem:
  "(tag, g) \<in> set (tag_groups df) \<longleftrightarrow> tag \<in> (\<lambda>(t, r). r_tag r) ` set df \<and> g = tag_sub_table tag df"
  by (auto simp: tag_groups_def)

lemma tag_sub_table_mem:
  "x \<in> set (tag_sub_table tag df) \<longleftrightarrow> x \<in> set df \<and> r_tag (snd x) = tag"
  by (auto simp: tag_sub_table_def)

lemma reconstruct_times_snd: "x \<in> set (reconstruct_times df) \<Longrightarrow> snd x \<in> set df"
  by (auto simp: reconstruct_times_def)

lemma selected_rows_origin:
  assumes "r \<in> set (selected_rows T sel)"
  shows "\<exists>r0 \<in> set (rows T). r_tag r = r_tag r0 \<and> r_values r = r_values r0 \<and> r_time r = r_time r0 \<and> r_count r = r_count r0"
proof -
  have "r \<in> set (table_rows T)"
    using assms by (auto simp: selected_rows_def drop_duplicates_def Let_def split: option.splits)
  then show ?thesis by (auto simp: table_rows_def split: if_splits)
qed

lemmas pivot_eval = convert_single_dataframe_def selected_rows_def table_rows_def drop_duplicates_def
   reconstruct_times_def reconstruct_def count_min_def count_range_def group_counts_def time_seconds_def
   tag_groups_def tag_sub_table_def
   pivot_tag_def tag_name_def SIGNAL_TAGS_def SENSOR_TAGS_def FEATURE_TAGS_def sub_df_def sub_df_columns_def sub_df_cells_def keeps_values_def keeps_quality_def quality_name_def
   join_outer_def lookup_row_def empty_frame_def q_row_def

text \<open>
  Claim C2 says that the pivot drops a column of a tag only when the column is missing in
  all rows of the tag.  \<open>dropna(axis=1)\<close> drops it as soon as one row misses it: here the
  quality of \<open>heart_rate\<close> is present in the first row and missing in the second, and the
  pivoted frame has no quality column.
\<close>

theorem dropna_all_missing_counterexample:
  "map r_quality (rows ex_partial_quality) = [Some 1, None] \<and>
   convert_single_dataframe (Some ex_partial_quality) (Some [6]) =
     Inr \<lparr>wf_columns = [''heart_rate''], wf_rows = [(2, [Some 60]), (3, [Some 61])]\<rparr>"
  by (simp add: pivot_eval ex_partial_quality_def)

text \<open>
  Claim C2, amended.  In the frame of one tag the value column is kept exactly when no row
  of the tag misses its value, and the quality column exactly when the raw frame has a
  quality column and no row of the tag misses its quality.  When the tag is pivoted (it is
  resolved, has rows, is not zero-filled and the step succeeds), the columns kept are the
  columns the tag adds to the wide frame.
\<close>

theorem dropna_any_missing:
  "(name \<in> set (wf_columns (sub_df hq name (quality_name tag name) g))
      \<longleftrightarrow> (\<forall>(t, r) \<in> set g. r_values r \<noteq> None))
   \<and> (quality_name tag name \<in> set (wf_columns (sub_df hq name (quality_name tag name) g))
      \<longleftrightarrow> hq \<and> (\<forall>(t, r) \<in> set g. r_quality r \<noteq> None))
   \<and> (tag_name tag = Inr name \<and> g \<noteq> [] \<and> \<not> list_all (\<lambda>(t, r). r_values r = Some 0) g
        \<and> pivot_tag hq new_df (tag, g) = Inr F
      \<longrightarrow> wf_columns F = wf_columns new_df @ wf_columns (sub_df hq name (quality_name tag name) g))"
proof -
  have A: "name \<in> set (wf_columns (sub_df hq name (quality_name tag name) g))
      \<longleftrightarrow> (\<forall>(t, r) \<in> set g. r_values r \<noteq> None)"
    by (simp add: name_in_sub_df keeps_values_def list_all_iff)
  have B: "quality_name tag name \<in> set (wf_columns (sub_df hq name (quality_name tag name) g))
      \<longleftrightarrow> hq \<and> (\<forall>(t, r) \<in> set g. r_quality r \<noteq> None)"
    by (simp add: qname_in_sub_df keeps_quality_def list_all_iff)
  have C: "wf_columns F = wf_columns new_df @ wf_columns (sub_df hq name (quality_name tag name) g)"
    if "tag_name tag = Inr name" "g \<noteq> []" "\<not> list_all (\<lambda>(t, r). r_values r = Some 0) g"
       "pivot_tag hq new_df (tag, g) = Inr F"
  proof -
    from that have "join_outer new_df
        ((sub_df hq name (quality_name tag name) g)
           \<lparr>wf_rows := sort_key fst (wf_rows (sub_df hq name (quality_name tag name) g))\<rparr>) = Inr F"
      by (simp add: pivot_tag_def Let_def sub_df_rows_Nil split: if_splits)
    from join_outer_columns [OF this] show ?thesis by simp
  qed
  from A B C show ?thesis by blast
qed

theorem dropna_any_missing_witness:
  "wf_columns (sub_df True ''heart_rate'' ''heart_rate_quality''
       (tag_sub_table 6 (reconstruct_times (rows ex_full_quality))))
     = [''heart_rate'', ''heart_rate_quality'']
   \<and> convert_single_dataframe (Some ex_full_quality) (Some [6]) =
     Inr \<lparr>wf_columns = [''heart_rate'', ''heart_rate_quality''],
          wf_rows = [(2, [Some 60, Some 1]), (3, [Some 61, Some 2])]\<rparr>"
  using dropna_any_missing [where name = "''heart_rate''" and hq = True and tag = 6
      and g = "tag_sub_table 6 (reconstruct_times (rows ex_full_quality))"
      and new_df = empty_frame
      and F = "\<lparr>wf_columns = [''heart_rate'', ''heart_rate_quality''],
          wf_rows = [(2, [Some 60, Some 1]), (3, [Some 61, Some 2])]\<rparr>"]
  by (simp add: pivot_eval ex_full_quality_def)

text \<open>
  Claim C3 says that a tag whose reconstructed times contain a duplicate makes the pivot
  fail.  The zero test of line 181 comes before \<open>set_index\<close>: two different rows of tag 6
  with the same time and count, both of value zero, are skipped without an error.
\<close>

theorem duplicate_time_zero_tag_counterexample:
  "map fst (tag_sub_table 6 (reconstruct_times (selected_rows ex_zero_duplicate (Some [6])))) = [2, 2]
   \<and> convert_single_dataframe (Some ex_zero_duplicate) (Some [6]) = Inr empty_frame"
  by (simp add: pivot_eval ex_zero_duplicate_def)

text \<open>
  Claim C3, amended.  When the reconstructed times of the rows of a tag contain a duplicate
  and the tag is not discarded as zero-filled, \<open>_convert_single_dataframe\<close> raises.
\<close>

theorem duplicate_time_raises:
  assumes "\<not> distinct (map fst (tag_sub_table tag (reconstruct_times (selected_rows T sel))))"
    and "\<not> list_all (\<lambda>(t, r). r_values r = Some 0)
             (tag_sub_table tag (reconstruct_times (selected_rows T sel)))"
  shows "\<exists>e. convert_single_dataframe (Some T) sel = Inl e"
proof -
  let ?df = "reconstruct_times (selected_rows T sel)"
  let ?g = "tag_sub_table tag ?df"
  from assms(1) have "?g \<noteq> []" by auto
  then obtain x where "x \<in> set ?g" by (cases ?g) auto
  then have "tag \<in> (\<lambda>(t, r). r_tag r) ` set ?df"
    by (auto simp: tag_sub_table_def)
  then have mem: "(tag, ?g) \<in> set (tag_groups ?df)" by (simp add: tag_groups_mem)
  have "isl (pivot_loop (has_quality T) empty_frame (tag_groups ?df))"
    by (rule pivot_loop_error [OF mem]) (rule pivot_tag_duplicate [OF assms])
  then show ?thesis by (auto simp: convert_single_dataframe_def isl_def)
qed

theorem duplicate_time_raises_witness:
  "convert_single_dataframe (Some ex_duplicate) (Some [6]) = Inl ValueError_duplicate_keys"
  using duplicate_time_raises [of 6 ex_duplicate "Some [6]"]
  by (simp add: pivot_eval ex_duplicate_def)

text \<open>
  Claim C5.  For a catalogued tag whose value is zero in every row of the raw frame, the
  loop body leaves the accumulated frame as it is (it does so too for a tag frame without
  rows), and the pivoted frame is the one computed from the groups of the other tags alone:
  the tag contributes no column.
\<close>

theorem zero_tag_discarded:
  assumes "tag_name tag = Inr name"
    and "\<forall>r \<in> set (rows T). r_tag r = tag \<longrightarrow> r_values r = Some 0"
  shows "(\<forall>new_df. pivot_tag (has_quality T) new_df
            (tag, tag_sub_table tag (reconstruct_times (selected_rows T sel))) = Inr new_df)
       \<and> (\<forall>new_df. pivot_tag (has_quality T) new_df (tag, []) = Inr new_df)
       \<and> convert_single_dataframe (Some T) sel =
           pivot_loop (has_quality T) empty_frame
             (filter (\<lambda>tg. fst tg \<noteq> tag) (tag_groups (reconstruct_times (selected_rows T sel))))"
proof -
  let ?df = "reconstruct_times (selected_rows T sel)"
  have zero: "list_all (\<lambda>(t, r). r_values r = Some 0) (tag_sub_table tag ?df)"
    unfolding list_all_iff
  proof
    fix x assume x: "x \<in> set (tag_sub_table tag ?df)"
    then have "snd x \<in> set (selected_rows T sel)" and tg: "r_tag (snd x) = tag"
      by (auto simp: tag_sub_table_mem reconstruct_times_snd)
    from selected_rows_origin [OF this(1)] tg assms(2) have "r_values (snd x) = Some 0" by auto
    then show "case x of (t, r) \<Rightarrow> r_values r = Some 0" by (simp add: case_prod_unfold)
  qed
  have A: "\<And>new_df. pivot_tag (has_quality T) new_df (tag, tag_sub_table tag ?df) = Inr new_df"
    using pivot_tag_skip [OF assms(1)] zero by simp
  have B: "\<And>new_df. pivot_tag (has_quality T) new_df (tag, []) = Inr new_df"
    using pivot_tag_skip [OF assms(1)] by simp
  have "pivot_loop (has_quality T) empty_frame (tag_groups ?df) =
        pivot_loop (has_quality T) empty_frame (filter (\<lambda>tg. fst tg \<noteq> tag) (tag_groups ?df))"
  proof (rule pivot_loop_filter)
    fix acc tg
    assume tg: "tg \<in> set (tag_groups ?df)" "\<not> fst tg \<noteq> tag"
    obtain a b where ab: "tg = (a, b)" by (cases tg)
    with tg have "tg = (tag, tag_sub_table tag ?df)"
      by (simp add: tag_groups_mem)
    then show "pivot_tag (has_quality T) acc tg = Inr acc" using A by simp
  qed
  then have C: "convert_single_dataframe (Some T) sel =
           pivot_loop (has_quality T) empty_frame
             (filter (\<lambda>tg. fst tg \<noteq> tag) (tag_groups ?df))"
    by (simp add: convert_single_dataframe_def)
  from A B C show ?thesis by blast
qed

theorem zero_tag_discarded_witness:
  "convert_single_dataframe (Some ex_zero_tag) None =
     Inr \<lparr>wf_columns = [''oxygen_saturation''], wf_rows = [(2 + 1 / 2, [Some 98])]\<rparr>"
  using zero_tag_discarded [of 6 "''heart_rate''" ex_zero_tag None]
  by (simp add: pivot_eval ex_zero_tag_def)

section \<open>Properties of \<open>timeshift\<close>\<close>

lemma join_raw_unchanged: "raw_dataframes (snd (join s)) = raw_dataframes s"
  by (auto simp: join_def raw_dataframes_def split: sum.splits prod.splits)

lemma raw_dataframes_update:
  "raw_dataframes (update_raw_dataframes f s) = map f (raw_dataframes s)"
  by (simp add: raw_dataframes_def update_raw_dataframes_def split: option.splits)

lemma anchor_table_min:
  assumes "rows T \<noteq> []"
  shows "Min (set (map r_time (rows (anchor_table A T)))) = A"
proof -
  let ?S = "set (map r_time (rows T))"
  let ?f = "\<lambda>t. A + (t - Min ?S)"
  have fin: "finite ?S" and ne: "?S \<noteq> {}" using assms by auto
  have "set (map r_time (rows (anchor_table A T))) = ?f ` ?S"
    by (auto simp: anchor_table_def image_iff)
  moreover have "Min (?f ` ?S) = ?f (Min ?S)"
    using assms by (intro mono_Min_commute [symmetric]) (auto simp: mono_def)
  ultimately show ?thesis by simp
qed

lemma anchor_table_spacing:
  assumes "i < length (rows T)" and "j < length (rows T)"
  shows "r_time (rows (anchor_table A T) ! i) - r_time (rows (anchor_table A T) ! j) =
         r_time (rows T ! i) - r_time (rows T ! j)"
  using assms by (simp add: anchor_table_def)

text \<open>
  Claim C6.  \<open>timeshift\<close> with a timestamp \<open>A\<close> replaces every loaded raw frame by its
  re-anchored frame, whether or not the following \<open>_join\<close> raises.  In every loaded frame
  that has rows the smallest time is then \<open>A\<close>, and the difference between the times of any
  two rows of a frame is what it was.
\<close>

theorem timeshift_anchor:
  assumes "timeshift (Timestamp A) s = (res, s')"
  shows "raw_dataframes s' = map (anchor_table A) (raw_dataframes s)
       \<and> (\<forall>T \<in> set (raw_dataframes s). rows T \<noteq> [] \<longrightarrow>
             Min (set (map r_time (rows (anchor_table A T)))) = A)
       \<and> (\<forall>T \<in> set (raw_dataframes s). \<forall>i < length (rows T). \<forall>j < length (rows T).
             r_time (rows (anchor_table A T) ! i) - r_time (rows (anchor_table A T) ! j) =
             r_time (rows T ! i) - r_time (rows T ! j))"
proof -
  have "s' = snd (join (update_raw_dataframes (anchor_table A) s))"
    using assms by (simp add: timeshift_def)
  then have "raw_dataframes s' = map (anchor_table A) (raw_dataframes s)"
    by (simp add: join_raw_unchanged raw_dataframes_update)
  then show ?thesis
    using anchor_table_min anchor_table_spacing by blast
qed

theorem timeshift_anchor_witness:
  "raw_dataframes (snd (timeshift (Timestamp 100) (ex_reader (Some ex_signals) None None)))
     = [anchor_table 100 ex_signals]
   \<and> map r_time (rows (anchor_table 100 ex_signals)) = [100, 2000000100]
   \<and> Min (set (map r_time (rows (anchor_table 100 ex_signals)))) = 100"
  using timeshift_anchor [of 100 "ex_reader (Some ex_signals) None None"
      "fst (timeshift (Timestamp 100) (ex_reader (Some ex_signals) None None))"
      "snd (timeshift (Timestamp 100) (ex_reader (Some ex_signals) None None))"]
  by (simp add: raw_dataframes_def ex_reader_def ex_signals_def anchor_table_def q_row_def)

section \<open>Properties of \<open>_join\<close>\<close>

subsection \<open>Shape of the frames\<close>

lemma frame_ok_empty: "frame_ok empty_frame"
  by (simp add: frame_ok_def empty_frame_def)

lemma lookup_row_length:
  "frame_ok F \<Longrightarrow> length (lookup_row F t) = length (wf_columns F)"
  by (auto simp: lookup_row_def frame_ok_def list_all_iff split: option.splits dest!: map_of_SomeD)

lemma join_outer_ok:
  assumes "join_outer L R = Inr F" and "frame_ok L" and "frame_ok R"
  shows "frame_ok F"
proof -
  have "F = \<lparr>wf_columns = wf_columns L @ wf_columns R,
             wf_rows = map (\<lambda>t. (t, lookup_row L t @ lookup_row R t))
                           (sort (remdups (map fst (wf_rows L) @ map fst (wf_rows R))))\<rparr>"
    using assms(1) by (auto simp: join_outer_def split: if_splits)
  then have cols: "wf_columns F = wf_columns L @ wf_columns R"
    and rws: "\<And>t cs. (t, cs) \<in> set (wf_rows F) \<Longrightarrow> cs = lookup_row L t @ lookup_row R t"
    by auto
  show ?thesis
    unfolding frame_ok_def list_all_iff
  proof
    fix x assume x: "x \<in> set (wf_rows F)"
    obtain t cs where tc: "x = (t, cs)" by (cases x)
    from rws [OF x [unfolded tc]] have "length cs = length (wf_columns F)"
      by (simp add: cols lookup_row_length [OF assms(2)] lookup_row_length [OF assms(3)])
    then show "case x of (t, cs) \<Rightarrow> length cs = length (wf_columns F)" by (simp add: tc)
  qed
qed

lemma sub_df_ok: "frame_ok (sub_df hq name qname g)"
  by (simp add: frame_ok_def sub_df_def sub_df_columns_def sub_df_cells_def list_all_iff
      case_prod_unfold)

lemma sub_df_sorted_ok:
  "frame_ok ((sub_df hq name qname g)\<lparr>wf_rows := sort_key fst (wf_rows (sub_df hq name qname g))\<rparr>)"
  using sub_df_ok [of hq name qname g] by (simp add: frame_ok_def list_all_iff)

lemma pivot_tag_unfold:
  assumes "tag_name tag = Inr name"
  shows "pivot_tag hq new_df (tag, g) =
     (if g = [] then Inr new_df
      else if \<not> keeps_values g then Inl (KeyError_column name)
      else if list_all (\<lambda>(t, r). r_values r = Some 0) g then Inr new_df
      else if \<not> distinct (map fst g) then Inl ValueError_duplicate_keys
      else join_outer new_df
            ((sub_df hq name (quality_name tag name) g)
               \<lparr>wf_rows := sort_key fst (wf_rows (sub_df hq name (quality_name tag name) g))\<rparr>))"
  using assms
  by (simp add: pivot_tag_def Let_def sub_df_rows_Nil name_in_sub_df sub_df_rows_fst
      del: distinct_map)

lemma pivot_tag_cases:
  assumes "pivot_tag hq new_df (tag, g) = Inr F"
  obtains "F = new_df"
  | name where "tag_name tag = Inr name"
      and "join_outer new_df
            ((sub_df hq name (quality_name tag name) g)
               \<lparr>wf_rows := sort_key fst (wf_rows (sub_df hq name (quality_name tag name) g))\<rparr>) = Inr F"
proof (cases "tag_name tag")
  case (Inl e)
  then show ?thesis using assms by (simp add: pivot_tag_def)
next
  case (Inr name)
  from assms [unfolded pivot_tag_unfold [OF Inr]] show ?thesis
    by (auto split: if_splits intro: that Inr)
qed

lemma pivot_tag_ok:
  assumes "pivot_tag hq new_df tg = Inr F" and "frame_ok new_df"
  shows "frame_ok F"
proof -
  obtain tag g where tg: "tg = (tag, g)" by (cases tg)
  from assms(1) [unfolded tg] show ?thesis
    by (cases rule: pivot_tag_cases) (auto intro: assms(2) join_outer_ok sub_df_sorted_ok)
qed

lemma pivot_loop_ok:
  "pivot_loop hq new_df gs = Inr F \<Longrightarrow> frame_ok new_df \<Longrightarrow> frame_ok F"
proof (induction gs arbitrary: new_df)
  case Nil
  then show ?case by simp
next
  case (Cons a gs)
  then show ?case by (auto split: sum.splits dest: pivot_tag_ok)
qed

lemma convert_ok: "convert_single_dataframe df sel = Inr F \<Longrightarrow> frame_ok F"
  by (auto simp: convert_single_dataframe_def split: option.splits
      intro: frame_ok_empty dest: pivot_loop_ok)

lemma join_frames_ok:
  "join_frames d dfs = (r, d') \<Longrightarrow> frame_ok d \<Longrightarrow> list_all frame_ok dfs \<Longrightarrow> frame_ok d'"
proof (induction dfs arbitrary: d)
  case Nil
  then show ?case by simp
next
  case (Cons a dfs)
  then show ?case by (auto split: sum.splits dest: join_outer_ok)
qed

subsection \<open>No column of a pivoted frame is called \<open>acc_mag\<close>\<close>

lemma tag_name_in_catalog:
  assumes "tag_name tag = Inr name"
  shows "(tag, name) \<in> set (SIGNAL_TAGS @ SENSOR_TAGS @ FEATURE_TAGS)"
  using assms by (auto simp: tag_name_def split: option.splits dest: map_of_SomeD)

lemma tag_name_not_acc_mag: "tag_name tag = Inr name \<Longrightarrow> name \<noteq> ''acc_mag''"
  by (drule tag_name_in_catalog) (auto simp: SIGNAL_TAGS_def SENSOR_TAGS_def FEATURE_TAGS_def)

lemma quality_name_not_acc_mag: "quality_name tag name \<noteq> ''acc_mag''"
proof
  assume "quality_name tag name = ''acc_mag''"
  then have "length (quality_name tag name) = length ''acc_mag''" by simp
  then show False by (simp add: quality_name_def split: if_splits)
qed

lemma sub_df_columns_subset:
  "set (wf_columns (sub_df hq name qname g)) \<subseteq> {name, qname}"
  by (auto simp: sub_df_def sub_df_columns_def)

lemma pivot_tag_no_acc_mag:
  assumes "pivot_tag hq new_df tg = Inr F" and "''acc_mag'' \<notin> set (wf_columns new_df)"
  shows "''acc_mag'' \<notin> set (wf_columns F)"
proof -
  obtain tag g where tg: "tg = (tag, g)" by (cases tg)
  from assms(1) [unfolded tg] show ?thesis
  proof (cases rule: pivot_tag_cases)
    case 1
    then show ?thesis using assms(2) by simp
  next
    case (2 name)
    from join_outer_columns [OF 2(2)] show ?thesis
      using assms(2) tag_name_not_acc_mag [OF 2(1)] quality_name_not_acc_mag [of tag name]
        sub_df_columns_subset [of hq name "quality_name tag name" g]
      by auto
  qed
qed

lemma pivot_loop_no_acc_mag:
  "pivot_loop hq new_df gs = Inr F \<Longrightarrow> ''acc_mag'' \<notin> set (wf_columns new_df)
     \<Longrightarrow> ''acc_mag'' \<notin> set (wf_columns F)"
proof (induction gs arbitrary: new_df)
  case Nil
  then show ?case by simp
next
  case (Cons a gs)
  then show ?case by (auto split: sum.splits dest: pivot_tag_no_acc_mag)
qed

lemma convert_no_acc_mag:
  "convert_single_dataframe df sel = Inr F \<Longrightarrow> ''acc_mag'' \<notin> set (wf_columns F)"
  by (auto simp: convert_single_dataframe_def empty_frame_def split: option.splits
      dest: pivot_loop_no_acc_mag)

lemma join_frames_no_acc_mag:
  "join_frames d dfs = (r, d') \<Longrightarrow> ''acc_mag'' \<notin> set (wf_columns d) \<Longrightarrow>
     list_all (\<lambda>F. ''acc_mag'' \<notin> set (wf_columns F)) dfs \<Longrightarrow> ''acc_mag'' \<notin> set (wf_columns d')"
proof (induction dfs arbitrary: d)
  case Nil
  then show ?case by simp
next
  case (Cons a dfs)
  show ?case
  proof (cases "join_outer d a")
    case (Inl e)
    then show ?thesis using Cons.prems by auto
  next
    case (Inr x)
    from join_outer_columns [OF Inr] Cons.prems have "''acc_mag'' \<notin> set (wf_columns x)" by simp
    moreover have "join_frames x dfs = (r, d')" using Cons.prems Inr by simp
    ultimately show ?thesis using Cons.IH Cons.prems by simp
  qed
qed

lemma join_data:
  assumes "join s = (Inr (), s')"
  obtains d where "data s' = add_acc_mag d" and "frame_ok d" and "''acc_mag'' \<notin> set (wf_columns d)"
proof -
  from assms obtain a b c d u where
    a: "convert_single_dataframe (signals s) (Some (selected_signal_tags s)) = Inr a" and
    b: "convert_single_dataframe (features s) (Some (selected_feature_tags s)) = Inr b" and
    c: "convert_single_dataframe (sensors s) (Some (selected_sensor_tags s)) = Inr c" and
    j: "join_frames empty_frame [a, b, c] = (Inr u, d)" and s': "s' = s\<lparr>data := add_acc_mag d\<rparr>"
    by (auto simp: join_def split: sum.splits prod.splits)
  have "frame_ok d"
    using join_frames_ok [OF j] frame_ok_empty convert_ok [OF a] convert_ok [OF b] convert_ok [OF c]
    by simp
  moreover have "''acc_mag'' \<notin> set (wf_columns d)"
    using join_frames_no_acc_mag [OF j] convert_no_acc_mag [OF a] convert_no_acc_mag [OF b]
      convert_no_acc_mag [OF c]
    by (simp add: empty_frame_def)
  ultimately show ?thesis using s' that by simp
qed

lemma cell_append_old:
  assumes "length cs = length cols" and "n \<in> set cols"
  shows "cell (cols @ [a]) (cs @ [m]) n = cell cols cs n"
proof -
  have "fst ` set (zip cols cs) = set cols" using assms(1) by (metis map_fst_zip set_map)
  then have "n \<in> fst ` set (zip cols cs)" using assms(2) by simp
  then have "map_of (zip cols cs) n \<noteq> None" by (simp add: map_of_eq_None_iff)
  then show ?thesis using assms(1) by (auto simp: cell_def map_add_def split: option.splits)
qed

lemma cell_append_new:
  assumes "length cs = length cols" and "a \<notin> set cols"
  shows "cell (cols @ [a]) (cs @ [m]) a = Some m"
proof -
  have "a \<notin> fst ` set (zip cols cs)" using assms by (auto dest: set_zip_leftD)
  then have N: "map_of (zip cols cs) a = None" by (simp add: map_of_eq_None_iff)
  show ?thesis using assms(1) by (simp add: cell_def map_add_def N)
qed

lemma cell_present:
  assumes "length cs = length cols" and "n \<in> set cols"
  shows "\<exists>c. cell cols cs n = Some c"
proof -
  have "fst ` set (zip cols cs) = set cols" using assms(1) by (metis map_fst_zip set_map)
  then have "n \<in> fst ` set (zip cols cs)" using assms(2) by simp
  then have "map_of (zip cols cs) n \<noteq> None" by (simp add: map_of_eq_None_iff)
  then show ?thesis by (auto simp: cell_def)
qed

lemma linalg_norm_cells:
  assumes "cell cols cs ''accx_data'' = Some cx" "cell cols cs ''accy_data'' = Some cy"
    "cell cols cs ''accz_data'' = Some cz"
  shows "linalg_norm (select_cells cols cs ACC_NAMES) = euclid (Some cx) (Some cy) (Some cz)"
  using assms
  by (cases cx; cases cy; cases cz)
     (simp_all add: linalg_norm_def select_cells_def ACC_NAMES_def euclid_def power2_eq_square)

lemma add_acc_mag_present:
  assumes ok: "frame_ok d" and fresh: "''acc_mag'' \<notin> set (wf_columns d)"
    and acc: "set ACC_NAMES \<subseteq> set (wf_columns d)"
  shows "wf_columns (add_acc_mag d) = wf_columns d @ [''acc_mag'']"
    and "map fst (wf_rows (add_acc_mag d)) = map fst (wf_rows d)"
    and "\<And>t cs. (t, cs) \<in> set (wf_rows (add_acc_mag d)) \<Longrightarrow>
          cell (wf_columns (add_acc_mag d)) cs ''acc_mag'' =
            Some (euclid (cell (wf_columns (add_acc_mag d)) cs ''accx_data'')
                         (cell (wf_columns (add_acc_mag d)) cs ''accy_data'')
                         (cell (wf_columns (add_acc_mag d)) cs ''accz_data''))"
proof -
  have all: "list_all (\<lambda>x. x \<in> set (wf_columns d)) ACC_NAMES"
    using acc by (auto simp: list_all_iff)
  show cols: "wf_columns (add_acc_mag d) = wf_columns d @ [''acc_mag'']"
    using all by (simp add: add_acc_mag_def)
  show "map fst (wf_rows (add_acc_mag d)) = map fst (wf_rows d)"
    using all by (simp add: add_acc_mag_def comp_def case_prod_unfold)
  fix t cs assume "(t, cs) \<in> set (wf_rows (add_acc_mag d))"
  then obtain cs0 where cs0: "(t, cs0) \<in> set (wf_rows d)"
    and cs: "cs = cs0 @ [linalg_norm (select_cells (wf_columns d) cs0 ACC_NAMES)]"
    using all by (auto simp: add_acc_mag_def)
  have len: "length cs0 = length (wf_columns d)"
    using ok cs0 by (auto simp: frame_ok_def list_all_iff)
  have inx: "''accx_data'' \<in> set (wf_columns d)" and iny: "''accy_data'' \<in> set (wf_columns d)"
    and inz: "''accz_data'' \<in> set (wf_columns d)"
    using acc by (auto simp: ACC_NAMES_def)
  obtain cx cy cz where c: "cell (wf_columns d) cs0 ''accx_data'' = Some cx"
    "cell (wf_columns d) cs0 ''accy_data'' = Some cy" "cell (wf_columns d) cs0 ''accz_data'' = Some cz"
    using cell_present [OF len inx] cell_present [OF len iny] cell_present [OF len inz] by blast
  show "cell (wf_columns (add_acc_mag d)) cs ''acc_mag'' =
            Some (euclid (cell (wf_columns (add_acc_mag d)) cs ''accx_data'')
                         (cell (wf_columns (add_acc_mag d)) cs ''accy_data'')
                         (cell (wf_columns (add_acc_mag d)) cs ''accz_data''))"
    unfolding cols cs
    by (simp only: cell_append_new [OF len fresh] cell_append_old [OF len inx]
        cell_append_old [OF len iny] cell_append_old [OF len inz] c linalg_norm_cells [OF c])
qed

lemma add_acc_mag_absent:
  assumes "\<not> set ACC_NAMES \<subseteq> set (wf_columns d)"
  shows "add_acc_mag d = d"
  using assms by (auto simp: add_acc_mag_def list_all_iff)

lemma add_acc_mag_acc_iff:
  assumes "''acc_mag'' \<notin> set (wf_columns d)"
  shows "set ACC_NAMES \<subseteq> set (wf_columns (add_acc_mag d)) \<longleftrightarrow> set ACC_NAMES \<subseteq> set (wf_columns d)"
  by (auto simp: add_acc_mag_def ACC_NAMES_def)

text \<open>
  Claim C4.  After a successful \<open>_join\<close>: when the combined frame has the three columns
  \<open>accx_data\<close>, \<open>accy_data\<close> and \<open>accz_data\<close>, its last column is \<open>acc_mag\<close> and in every row
  the cell of \<open>acc_mag\<close> is the Euclidean norm of the three axis cells, missing when one of
  them is missing; when one of the three columns is absent, there is no column \<open>acc_mag\<close>.
\<close>

theorem acc_mag_column:
  assumes "join s = (Inr (), s')"
  shows "(set ACC_NAMES \<subseteq> set (wf_columns (data s')) \<longrightarrow>
            last (wf_columns (data s')) = ''acc_mag''
          \<and> (\<forall>(t, cs) \<in> set (wf_rows (data s')).
                cell (wf_columns (data s')) cs ''acc_mag'' =
                  Some (euclid (cell (wf_columns (data s')) cs ''accx_data'')
                               (cell (wf_columns (data s')) cs ''accy_data'')
                               (cell (wf_columns (data s')) cs ''accz_data''))))
       \<and> (\<not> set ACC_NAMES \<subseteq> set (wf_columns (data s')) \<longrightarrow>
            ''acc_mag'' \<notin> set (wf_columns (data s')))"
proof -
  from assms obtain d where d: "data s' = add_acc_mag d" and ok: "frame_ok d"
    and fresh: "''acc_mag'' \<notin> set (wf_columns d)"
    by (rule join_data)
  show ?thesis
  proof (cases "set ACC_NAMES \<subseteq> set (wf_columns d)")
    case True
    then have T': "set ACC_NAMES \<subseteq> set (wf_columns (data s'))"
      by (simp add: d add_acc_mag_acc_iff [OF fresh])
    from add_acc_mag_present [OF ok fresh True] T' show ?thesis
      unfolding d by auto
  next
    case False
    then have "\<not> set ACC_NAMES \<subseteq> set (wf_columns (data s'))"
      by (simp add: d add_acc_mag_acc_iff [OF fresh])
    then show ?thesis using fresh add_acc_mag_absent [OF False] by (simp add: d)
  qed
qed

lemma euclid_345: "euclid (Some (Some 3)) (Some (Some 4)) (Some (Some 0)) = Some 5"
proof -
  have "sqrt (3\<^sup>2 + 4\<^sup>2 + 0\<^sup>2) = sqrt (5\<^sup>2)" by simp
  also have "\<dots> = 5" by (simp only: real_sqrt_abs)
  finally show ?thesis by (simp add: euclid_def)
qed

lemma sqrt_25: "sqrt 25 = 5"
proof -
  have "sqrt ((5::real)\<^sup>2) = 5" by (simp only: real_sqrt_abs)
  then show ?thesis by simp
qed

lemma sqrt_9: "sqrt 9 = 3"
proof -
  have "sqrt ((3::real)\<^sup>2) = 3" by (simp only: real_sqrt_abs)
  then show ?thesis by simp
qed

lemma ex_sensors_join:
  "join (ex_reader None None (Some ex_sensors)) =
     (Inr (), (ex_reader None None (Some ex_sensors))
        \<lparr>data := \<lparr>wf_columns = [''accx_data'', ''accy_data'', ''accz_data'', ''acc_mag''],
                   wf_rows = [(5, [Some 3, Some 4, Some 0, Some 5]),
                              (6, [Some 1, Some 2, Some 2, Some 3]),
                              (7, [Some 6, None, None, None])]\<rparr>\<rparr>)"
  by (simp add: join_def ex_reader_def ex_sensors_def pivot_eval default_sensor_tags_def
      default_signal_tags_def default_feature_tags_def add_acc_mag_def ACC_NAMES_def
      select_cells_def cell_def linalg_norm_def sqrt_25 sqrt_9)

theorem acc_mag_column_witness:
  "cell [''accx_data'', ''accy_data'', ''accz_data'', ''acc_mag''] [Some 3, Some 4, Some 0, Some 5] ''acc_mag''
     = Some (euclid (Some (Some 3)) (Some (Some 4)) (Some (Some 0)))
   \<and> euclid (Some (Some 3)) (Some (Some 4)) (Some (Some 0)) = Some 5
   \<and> cell [''accx_data'', ''accy_data'', ''accz_data'', ''acc_mag''] [Some 6, None, None, None] ''acc_mag''
     = Some (euclid (Some (Some 6)) (Some None) (Some None))
   \<and> euclid (Some (Some 6)) (Some None) (Some None) = None"
  using acc_mag_column [OF ex_sensors_join]
  by (simp add: ACC_NAMES_def cell_def euclid_345) (simp add: euclid_def)

section \<open>A shift of time commutes with the pivot\<close>


lemma shift_row_fields [simp]:
  "r_tag (shift_row d r) = r_tag r" "r_values (shift_row d r) = r_values r"
  "r_quality (shift_row d r) = r_quality r" "r_count (shift_row d r) = r_count r"
  "r_time (shift_row d r) = r_time r + d"
  by (simp_all add: shift_row_def)



lemma shift_table_rows: "rows (shift_table d T) = map (shift_row d) (rows T)"
  by (simp add: shift_table_def shift_row_def)





















lemma shift_frame_columns [simp]: "wf_columns (shift_frame \<delta> F) = wf_columns F"
  by (simp add: shift_frame_def)
















section \<open>Properties of \<open>__init__\<close>\<close>

lemma validate_tags_Inl_iff:
  "(\<exists>e. validate_tags err catalog tags = Inl e) \<longleftrightarrow> (\<exists>t \<in> set tags. map_of catalog t = None)"
proof -
  have "(find (\<lambda>tag. map_of catalog tag = None) tags = None)
          \<longleftrightarrow> \<not> (\<exists>t \<in> set tags. map_of catalog t = None)"
    by (auto simp: find_None_iff)
  then show ?thesis
    by (cases "find (\<lambda>tag. map_of catalog tag = None) tags") (simp_all add: validate_tags_def)
qed

lemma validate_tags_cases:
  obtains e where "validate_tags err catalog tags = Inl e" "\<exists>t \<in> set tags. map_of catalog t = None"
  | "validate_tags err catalog tags = Inr ()" "\<forall>t \<in> set tags. map_of catalog t \<noteq> None"
proof (cases "validate_tags err catalog tags")
  case (Inl e)
  then show ?thesis using validate_tags_Inl_iff [of err catalog tags] that(1) by blast
next
  case (Inr u)
  then show ?thesis using validate_tags_Inl_iff [of err catalog tags] that(2) by auto
qed

lemma init_invalid:
  assumes "(\<exists>t \<in> set signal_tags. map_of SIGNAL_TAGS t = None)
         \<or> (\<exists>t \<in> set feature_tags. map_of FEATURE_TAGS t = None)
         \<or> (\<exists>t \<in> set sensor_tags. map_of SENSOR_TAGS t = None)"
  shows "\<exists>e. init csv_float py_float fs signal_tags sensor_tags feature_tags = ([], Inl e)"
proof (cases "isdir fs")
  case False
  then show ?thesis by (simp add: init_def)
next
  case True
  show ?thesis
  proof (cases rule: validate_tags_cases [of KeyError_signal_tag SIGNAL_TAGS signal_tags])
    case (1 e)
    then show ?thesis using True by (simp add: init_def)
  next
    case 2
    note sig = 2
    show ?thesis
    proof (cases rule: validate_tags_cases [of KeyError_feature_tag FEATURE_TAGS feature_tags])
      case (1 e)
      then show ?thesis using True sig by (simp add: init_def)
    next
      case 2
      note fea = 2
      show ?thesis
      proof (cases rule: validate_tags_cases [of KeyError_sensor_tag SENSOR_TAGS sensor_tags])
        case (1 e)
        then show ?thesis using True sig fea by (simp add: init_def)
      next
        case 2
        then show ?thesis using assms sig fea by blast
      qed
    qed
  qed
qed

lemma init_selected:
  assumes "init csv_float py_float fs signal_tags sensor_tags feature_tags = (ev, Inr s)"
  shows "selected_signal_tags s = signal_tags \<and> selected_feature_tags s = feature_tags
       \<and> selected_sensor_tags s = sensor_tags"
  using assms
  by (auto simp: init_def io_bind_def join_def split: if_splits sum.splits prod.splits)

text \<open>
  Claim C8.  When a tag of the signal, feature or sensor list is not a key of the catalog of
  its own list, \<open>__init__\<close> raises and has accessed no file: no pattern was searched and no
  file read.  Conversely a reader is constructed only when every tag of the three lists is
  a key of its catalog, and then the lists are the selected tags of the reader.
\<close>

theorem invalid_tag_fails_fast:
  "((\<exists>t \<in> set signal_tags. map_of SIGNAL_TAGS t = None)
     \<or> (\<exists>t \<in> set feature_tags. map_of FEATURE_TAGS t = None)
     \<or> (\<exists>t \<in> set sensor_tags. map_of SENSOR_TAGS t = None)
    \<longrightarrow> (\<exists>e. init csv_float py_float fs signal_tags sensor_tags feature_tags = ([], Inl e)))
   \<and> (\<forall>ev s. init csv_float py_float fs signal_tags sensor_tags feature_tags = (ev, Inr s) \<longrightarrow>
         (\<forall>t \<in> set signal_tags. map_of SIGNAL_TAGS t \<noteq> None)
       \<and> (\<forall>t \<in> set feature_tags. map_of FEATURE_TAGS t \<noteq> None)
       \<and> (\<forall>t \<in> set sensor_tags. map_of SENSOR_TAGS t \<noteq> None)
       \<and> selected_signal_tags s = signal_tags \<and> selected_feature_tags s = feature_tags
       \<and> selected_sensor_tags s = sensor_tags)"
proof (intro conjI impI allI)
  assume "(\<exists>t \<in> set signal_tags. map_of SIGNAL_TAGS t = None)
     \<or> (\<exists>t \<in> set feature_tags. map_of FEATURE_TAGS t = None)
     \<or> (\<exists>t \<in> set sensor_tags. map_of SENSOR_TAGS t = None)"
  then show "\<exists>e. init csv_float py_float fs signal_tags sensor_tags feature_tags = ([], Inl e)"
    by (rule init_invalid)
next
  fix ev s
  assume ok: "init csv_float py_float fs signal_tags sensor_tags feature_tags = (ev, Inr s)"
  have valid: "\<not> ((\<exists>t \<in> set signal_tags. map_of SIGNAL_TAGS t = None)
         \<or> (\<exists>t \<in> set feature_tags. map_of FEATURE_TAGS t = None)
         \<or> (\<exists>t \<in> set sensor_tags. map_of SENSOR_TAGS t = None))"
  proof
    assume "(\<exists>t \<in> set signal_tags. map_of SIGNAL_TAGS t = None)
         \<or> (\<exists>t \<in> set feature_tags. map_of FEATURE_TAGS t = None)
         \<or> (\<exists>t \<in> set sensor_tags. map_of SENSOR_TAGS t = None)"
    from init_invalid [OF this, of csv_float py_float fs] ok show False by auto
  qed
  show "\<forall>t \<in> set signal_tags. map_of SIGNAL_TAGS t \<noteq> None" using valid by auto
  show "\<forall>t \<in> set feature_tags. map_of FEATURE_TAGS t \<noteq> None" using valid by auto
  show "\<forall>t \<in> set sensor_tags. map_of SENSOR_TAGS t \<noteq> None" using valid by auto
  show "selected_signal_tags s = signal_tags" "selected_feature_tags s = feature_tags"
    "selected_sensor_tags s = sensor_tags"
    using init_selected [OF ok] by simp_all
qed

lemma ex_init_ok:
  "init ex_float ex_float ex_empty_dir [6, 7] [84] [14] =
     (map Glob file_patterns,
      Inr \<lparr>selected_signal_tags = [6, 7], selected_feature_tags = [14], selected_sensor_tags = [84],
           aggregates = None, analytics_events = None, attributes_dailys = None,
           everion_events = None, features = None, sensors = None, signals = None,
           data = empty_frame\<rparr>)"
  by (simp add: init_def validate_tags_def SIGNAL_TAGS_def FEATURE_TAGS_def SENSOR_TAGS_def
      ex_empty_dir_def init_filelist_def file_patterns_def io_bind_def read_file_def join_def
      convert_single_dataframe_def join_outer_def lookup_row_def empty_frame_def add_acc_mag_def
      ACC_NAMES_def)

theorem invalid_tag_fails_fast_witness:
  "init ex_float ex_float ex_empty_dir [6, 999] [84] [14] = ([], Inl (KeyError_signal_tag 999))
   \<and> map_of SIGNAL_TAGS 999 = None
   \<and> map_of SIGNAL_TAGS 6 \<noteq> None \<and> map_of SIGNAL_TAGS 7 \<noteq> None"
  using invalid_tag_fails_fast [of "[6, 999]" "[14]" "[84]" ex_float ex_float ex_empty_dir]
    invalid_tag_fails_fast [of "[6, 7]" "[14]" "[84]" ex_float ex_float ex_empty_dir]
  by (simp add: ex_init_ok)
     (simp add: init_def validate_tags_def SIGNAL_TAGS_def ex_empty_dir_def)

section \<open>Exact duplicates\<close>

lemma set_drop_duplicates [simp]: "set (drop_duplicates xs) = set xs"
  by (simp add: drop_duplicates_def)

lemma distinct_drop_duplicates [simp]: "distinct (drop_duplicates xs)"
  by (simp add: drop_duplicates_def)

lemma drop_duplicates_map_idem:
  "drop_duplicates (map f (drop_duplicates xs)) = drop_duplicates (map f xs)"
  by (simp add: drop_duplicates_def rev_map remdups_map_remdups)

lemma drop_duplicates_idem: "drop_duplicates (drop_duplicates xs) = drop_duplicates xs"
  using drop_duplicates_map_idem [of "\<lambda>x. x" xs] by simp

lemma remdups_replicate_pos: "0 < n \<Longrightarrow> remdups (replicate n x) = [x]"
proof (induction n)
  case 0
  then show ?case by simp
next
  case (Suc n)
  then show ?case by (cases n) simp_all
qed

lemma drop_duplicates_replicate: "0 < n \<Longrightarrow> drop_duplicates (replicate n x) = [x]"
  by (simp add: drop_duplicates_def remdups_replicate_pos)

lemma those_None_iff: "those xs = None \<longleftrightarrow> None \<in> set xs"
  by (induction xs) (auto split: option.splits)

lemma those_map_Some:
  "those (map f xs) = Some vs \<Longrightarrow> vs = map (\<lambda>x. the (f x)) xs"
  by (induction xs arbitrary: vs) (auto split: option.splits)

lemma zip_map_self: "map g (zip xs (map h xs)) = map (\<lambda>x. g (x, h x)) xs"
  by (induction xs) auto

subsection \<open>Exact duplicates at load\<close>

lemma load_frame_drop_duplicates:
  "load_frame csv_float py_float (drop_duplicates file_rows) = load_frame csv_float py_float file_rows"
proof (cases "those (map (\<lambda>x. csv_float (c_values x)) file_rows)")
  case None
  then have N': "those (map (\<lambda>x. csv_float (c_values x)) (drop_duplicates file_rows)) = None"
    by (simp add: those_None_iff)
  show ?thesis
    by (simp only: load_frame_def None N' option.case drop_duplicates_map_idem)
next
  case (Some vs)
  then have vs: "vs = map (\<lambda>x. the (csv_float (c_values x))) file_rows"
    by (rule those_map_Some)
  have "None \<notin> set (map (\<lambda>x. csv_float (c_values x)) file_rows)"
    using Some those_None_iff [of "map (\<lambda>x. csv_float (c_values x)) file_rows"] by simp
  then have "None \<notin> set (map (\<lambda>x. csv_float (c_values x)) (drop_duplicates file_rows))"
    by simp
  then have "those (map (\<lambda>x. csv_float (c_values x)) (drop_duplicates file_rows)) \<noteq> None"
    by (simp only: those_None_iff not_False_eq_True)
  then obtain vs' where Some': "those (map (\<lambda>x. csv_float (c_values x)) (drop_duplicates file_rows)) = Some vs'"
    by blast
  then have vs': "vs' = map (\<lambda>x. the (csv_float (c_values x))) (drop_duplicates file_rows)"
    by (rule those_map_Some)
  have eq: "drop_duplicates (map (\<lambda>(x, v). set_values x v) (zip (drop_duplicates file_rows) vs')) =
        drop_duplicates (map (\<lambda>(x, v). set_values x v) (zip file_rows vs))"
    unfolding vs vs' zip_map_self by (simp only: split_conv drop_duplicates_map_idem)
  show ?thesis
    by (simp only: load_frame_def Some Some' option.case eq)
qed

subsection \<open>Exact duplicates at the start of the pivot\<close>

lemma table_rows_drop_duplicates:
  "drop_duplicates (table_rows (T\<lparr>rows := drop_duplicates (rows T)\<rparr>)) = drop_duplicates (table_rows T)"
  by (simp add: table_rows_def drop_duplicates_map_idem drop_duplicates_idem)

lemma selected_rows_drop_duplicates:
  "selected_rows (T\<lparr>rows := drop_duplicates (rows T)\<rparr>) sel = selected_rows T sel"
  by (simp add: selected_rows_def table_rows_drop_duplicates)

lemma convert_drop_duplicates:
  "convert_single_dataframe (Some (T\<lparr>rows := drop_duplicates (rows T)\<rparr>)) sel =
   convert_single_dataframe (Some T) sel"
  by (simp add: convert_single_dataframe_def selected_rows_drop_duplicates)

lemma distinct_selected_rows: "distinct (selected_rows T sel)"
  by (simp add: selected_rows_def Let_def split: option.splits)

lemma selected_rows_subset: "set (selected_rows T sel) \<subseteq> set (table_rows T)"
  by (auto simp: selected_rows_def Let_def split: option.splits)

lemma distinct_reconstruct_times: "distinct df \<Longrightarrow> distinct (reconstruct_times df)"
  by (simp add: reconstruct_times_def distinct_map inj_on_def)

lemma pivot_tag_duplicate_keysD:
  assumes "pivot_tag hq new_df (tag, g) = Inl ValueError_duplicate_keys"
  shows "\<not> distinct (map fst g)"
proof (cases "tag_name tag")
  case (Inl e)
  then show ?thesis using assms by (auto simp: pivot_tag_def tag_name_def split: option.splits)
next
  case (Inr name)
  from assms [unfolded pivot_tag_unfold [OF Inr]] show ?thesis
    by (auto simp: join_outer_def split: if_splits)
qed

lemma pivot_loop_duplicate_keysD:
  "pivot_loop hq new_df gs = Inl ValueError_duplicate_keys \<Longrightarrow>
     \<exists>tg \<in> set gs. \<not> distinct (map fst (snd tg))"
proof (induction gs arbitrary: new_df)
  case Nil
  then show ?case by simp
next
  case (Cons a gs)
  obtain tag g where a: "a = (tag, g)" by (cases a)
  show ?case
  proof (cases "pivot_tag hq new_df (tag, g)")
    case (Inl e)
    then have "e = ValueError_duplicate_keys" using Cons.prems a by simp
    then show ?thesis using Inl pivot_tag_duplicate_keysD a by auto
  next
    case (Inr F)
    then show ?thesis using Cons a by auto
  qed
qed

lemma convert_duplicate_keysD:
  assumes "convert_single_dataframe (Some T) sel = Inl ValueError_duplicate_keys"
  shows "\<exists>r1 \<in> set (table_rows T). \<exists>r2 \<in> set (table_rows T).
           r1 \<noteq> r2 \<and> r_tag r1 = r_tag r2
         \<and> reconstruct (selected_rows T sel) r1 = reconstruct (selected_rows T sel) r2"
proof -
  let ?df = "selected_rows T sel"
  from assms obtain tg where tg: "tg \<in> set (tag_groups (reconstruct_times ?df))"
    and dup: "\<not> distinct (map fst (snd tg))"
    by (auto simp: convert_single_dataframe_def dest: pivot_loop_duplicate_keysD)
  obtain tag g where tg_eq: "tg = (tag, g)" by (cases tg)
  have g: "g = tag_sub_table tag (reconstruct_times ?df)"
    using tg tg_eq by (simp add: tag_groups_mem)
  have "distinct g"
    unfolding g tag_sub_table_def
    by (intro distinct_filter distinct_reconstruct_times distinct_selected_rows)
  with dup tg_eq have "\<not> inj_on fst (set g)" by (simp add: distinct_map)
  then obtain x y where xy: "x \<in> set g" "y \<in> set g" "x \<noteq> y" "fst x = fst y"
    by (auto simp: inj_on_def)
  have mem: "\<And>z. z \<in> set g \<Longrightarrow> snd z \<in> set ?df \<and> r_tag (snd z) = tag
               \<and> fst z = reconstruct ?df (snd z)"
    by (auto simp: g tag_sub_table_def reconstruct_times_def)
  have "snd x \<noteq> snd y" using xy(3,4) by (simp add: prod_eq_iff)
  then show ?thesis
    using mem [OF xy(1)] mem [OF xy(2)] xy(4) selected_rows_subset [of T sel]
    by (metis subsetD)
qed

text \<open>
  Claim C10.  Rows that repeat an earlier row in every column are removed without an error:
  loading a file gives the same frame as loading it without its repeated rows, and the
  pivot of a frame is the pivot of the frame without its repeated rows.  So \<open>n\<close> identical
  records load and pivot like one, and do not raise the duplicate-index error.  When the
  pivot raises that error, two different rows of the frame with the same tag have the same
  reconstructed time.
\<close>

theorem exact_duplicates_removed:
  "load_frame csv_float py_float (drop_duplicates file_rows) = load_frame csv_float py_float file_rows
   \<and> convert_single_dataframe (Some (T\<lparr>rows := drop_duplicates (rows T)\<rparr>)) sel =
       convert_single_dataframe (Some T) sel
   \<and> (0 < n \<longrightarrow>
        load_frame csv_float py_float (replicate n x) = load_frame csv_float py_float [x]
      \<and> convert_single_dataframe (Some \<lparr>has_quality = hq, rows = replicate n r\<rparr>) sel =
          convert_single_dataframe (Some \<lparr>has_quality = hq, rows = [r]\<rparr>) sel
      \<and> convert_single_dataframe (Some \<lparr>has_quality = hq, rows = replicate n r\<rparr>) sel
          \<noteq> Inl ValueError_duplicate_keys)
   \<and> (convert_single_dataframe (Some T) sel = Inl ValueError_duplicate_keys \<longrightarrow>
        (\<exists>r1 \<in> set (table_rows T). \<exists>r2 \<in> set (table_rows T).
           r1 \<noteq> r2 \<and> r_tag r1 = r_tag r2
         \<and> reconstruct (selected_rows T sel) r1 = reconstruct (selected_rows T sel) r2))"
proof -
  have L: "load_frame csv_float py_float (replicate n x) = load_frame csv_float py_float [x]"
    if "0 < n"
    using load_frame_drop_duplicates [of csv_float py_float "replicate n x"]
      drop_duplicates_replicate [OF that, of x]
    by simp
  have P: "convert_single_dataframe (Some \<lparr>has_quality = hq, rows = replicate n r\<rparr>) sel =
          convert_single_dataframe (Some \<lparr>has_quality = hq, rows = [r]\<rparr>) sel"
    if "0 < n"
    using convert_drop_duplicates [of "\<lparr>has_quality = hq, rows = replicate n r\<rparr>" sel]
      drop_duplicates_replicate [OF that, of r]
    by simp
  have N: "convert_single_dataframe (Some \<lparr>has_quality = hq, rows = [r]\<rparr>) sel
          \<noteq> Inl ValueError_duplicate_keys"
  proof
    assume "convert_single_dataframe (Some \<lparr>has_quality = hq, rows = [r]\<rparr>) sel
          = Inl ValueError_duplicate_keys"
    from convert_duplicate_keysD [OF this] show False
      by (auto simp: table_rows_def split: if_splits)
  qed
  show ?thesis
  proof (intro conjI impI)
    show "load_frame csv_float py_float (drop_duplicates file_rows) =
          load_frame csv_float py_float file_rows"
      by (rule load_frame_drop_duplicates)
    show "convert_single_dataframe (Some (T\<lparr>rows := drop_duplicates (rows T)\<rparr>)) sel =
          convert_single_dataframe (Some T) sel"
      by (rule convert_drop_duplicates)
    show "load_frame csv_float py_float (replicate n x) = load_frame csv_float py_float [x]"
      if "0 < n" using that by (rule L)
    show "convert_single_dataframe (Some \<lparr>has_quality = hq, rows = replicate n r\<rparr>) sel =
          convert_single_dataframe (Some \<lparr>has_quality = hq, rows = [r]\<rparr>) sel"
      if "0 < n" using that by (rule P)
    show "convert_single_dataframe (Some \<lparr>has_quality = hq, rows = replicate n r\<rparr>) sel
          \<noteq> Inl ValueError_duplicate_keys"
      if "0 < n" using P [OF that] N by simp
    show "\<exists>r1 \<in> set (table_rows T). \<exists>r2 \<in> set (table_rows T).
           r1 \<noteq> r2 \<and> r_tag r1 = r_tag r2
         \<and> reconstruct (selected_rows T sel) r1 = reconstruct (selected_rows T sel) r2"
      if "convert_single_dataframe (Some T) sel = Inl ValueError_duplicate_keys"
      using that by (rule convert_duplicate_keysD)
  qed
qed

theorem exact_duplicates_removed_witness:
  "load_frame ex_float ex_float (replicate 3 ex_file_row) =
     Inr \<lparr>has_quality = False, rows = [q_row 2000000000 6 (Some 60) None 3]\<rparr>
   \<and> convert_single_dataframe
      (Some \<lparr>has_quality = True, rows = replicate 3 (q_row 2000000000 6 (Some 60) (Some 1) 3)\<rparr>)
      (Some [6]) =
     Inr \<lparr>wf_columns = [''heart_rate'', ''heart_rate_quality''], wf_rows = [(2, [Some 60, Some 1])]\<rparr>
   \<and> convert_single_dataframe (Some ex_duplicate) (Some [6]) = Inl ValueError_duplicate_keys
   \<and> rows ex_duplicate ! 0 \<noteq> rows ex_duplicate ! 1"
  using exact_duplicates_removed [of ex_float ex_float "[]" ex_duplicate "Some [6]" 3 ex_file_row
      True "q_row 2000000000 6 (Some 60) (Some 1) 3"]
  by (simp add: pivot_eval ex_duplicate_def load_frame_def ex_file_row_def ex_float_def
      set_values_def raw_of_def del: replicate.simps replicate_Suc)

section \<open>Persisting and reloading\<close>









lemma semicolon_not_in_nan: "CHR '';'' \<notin> set ''nan''"
  by simp






lemma truncate_time_fields [simp]:
  "r_values (truncate_time r) = r_values r" "r_quality (truncate_time r) = r_quality r"
  "r_tag (truncate_time r) = r_tag r" "r_count (truncate_time r) = r_count r"
  "r_streamType (truncate_time r) = r_streamType r"
  "r_time (truncate_time r) = trunc_seconds (r_time r) * 10 ^ 9"
  by (simp_all add: truncate_time_def)











end
